theory Spec2Isabelle
  imports Complex_Main
begin

section \<open>Numbers\<close>

text \<open>
  The program computes with JavaScript numbers. They are modelled as the real numbers
  extended with the three special values of the number type: \<open>PInf\<close> (Infinity),
  \<open>NInf\<close> (-Infinity) and \<open>NaN\<close>. Arithmetic on finite values is exact (rounding,
  overflow and the sign of zero are not modelled); the special values follow the rules of
  the number type: every operation on \<open>NaN\<close> gives \<open>NaN\<close>, every comparison with
  \<open>NaN\<close> is false, \<open>Infinity - Infinity\<close>, \<open>0 * Infinity\<close>, \<open>0 / 0\<close> and
  \<open>Infinity / Infinity\<close> are \<open>NaN\<close>, and a nonzero number divided by zero is an
  infinity.
\<close>

datatype jsnum = Fin real | PInf | NInf | NaN

text \<open>The sign of a number that is not \<open>NaN\<close>, and the infinity of a given sign.\<close>

fun sign_of :: "jsnum \<Rightarrow> real" where
  "sign_of (Fin r) = sgn r"
| "sign_of PInf = 1"
| "sign_of NInf = - 1"
| "sign_of NaN = 0"

definition inf_of :: "real \<Rightarrow> jsnum" where
  "inf_of s = (if 0 < s then PInf else if s < 0 then NInf else NaN)"

definition isNaN :: "jsnum \<Rightarrow> bool" where
  "isNaN a = (a = NaN)"

instantiation jsnum :: "{zero, one, plus, minus, uminus, times, inverse, abs, ord}"
begin

definition zero_jsnum :: jsnum where
  "zero_jsnum = Fin 0"

definition one_jsnum :: jsnum where
  "one_jsnum = Fin 1"

fun uminus_jsnum :: "jsnum \<Rightarrow> jsnum" where
  "uminus_jsnum (Fin r) = Fin (- r)"
| "uminus_jsnum PInf = NInf"
| "uminus_jsnum NInf = PInf"
| "uminus_jsnum NaN = NaN"

fun plus_jsnum :: "jsnum \<Rightarrow> jsnum \<Rightarrow> jsnum" where
  "plus_jsnum (Fin r) (Fin s) = Fin (r + s)"
| "plus_jsnum NaN b = NaN"
| "plus_jsnum a NaN = NaN"
| "plus_jsnum PInf NInf = NaN"
| "plus_jsnum NInf PInf = NaN"
| "plus_jsnum PInf b = PInf"
| "plus_jsnum a PInf = PInf"
| "plus_jsnum NInf b = NInf"
| "plus_jsnum a NInf = NInf"

definition minus_jsnum :: "jsnum \<Rightarrow> jsnum \<Rightarrow> jsnum" where
  "minus_jsnum a b = a + (- b)"

fun times_jsnum :: "jsnum \<Rightarrow> jsnum \<Rightarrow> jsnum" where
  "times_jsnum (Fin r) (Fin s) = Fin (r * s)"
| "times_jsnum NaN b = NaN"
| "times_jsnum a NaN = NaN"
| "times_jsnum a b = inf_of (sign_of a * sign_of b)"

fun divide_jsnum :: "jsnum \<Rightarrow> jsnum \<Rightarrow> jsnum" where
  "divide_jsnum (Fin r) (Fin s) = (if s = 0 then inf_of r else Fin (r / s))"
| "divide_jsnum NaN b = NaN"
| "divide_jsnum a NaN = NaN"
| "divide_jsnum (Fin r) b = Fin 0"
| "divide_jsnum a (Fin s) = inf_of (sign_of a * (if s < 0 then - 1 else 1))"
| "divide_jsnum a b = NaN"

definition inverse_jsnum :: "jsnum \<Rightarrow> jsnum" where
  "inverse_jsnum a = divide (Fin 1) a"

fun abs_jsnum :: "jsnum \<Rightarrow> jsnum" where
  "abs_jsnum (Fin r) = Fin \<bar>r\<bar>"
| "abs_jsnum PInf = PInf"
| "abs_jsnum NInf = PInf"
| "abs_jsnum NaN = NaN"

fun less_jsnum :: "jsnum \<Rightarrow> jsnum \<Rightarrow> bool" where
  "less_jsnum (Fin r) (Fin s) = (r < s)"
| "less_jsnum NaN b = False"
| "less_jsnum a NaN = False"
| "less_jsnum a NInf = False"
| "less_jsnum PInf b = False"
| "less_jsnum a b = True"

definition less_eq_jsnum :: "jsnum \<Rightarrow> jsnum \<Rightarrow> bool" where
  "less_eq_jsnum a b = (a < b \<or> (a = b \<and> a \<noteq> NaN))"

instance ..

end

text \<open>Addition is associative and commutative with neutral element \<open>Fin 0\<close>, so sums of
  lists of numbers do not depend on the order of summation.\<close>

instance jsnum :: comm_monoid_add
proof
  fix u v w :: jsnum
  show "u + v = v + u"
    by (cases u; cases v; simp)
  show "u + v + w = u + (v + w)"
    by (cases u; cases v; cases w; simp)
  show "0 + u = u"
    by (cases u; simp add: zero_jsnum_def)
qed

section \<open>Arrays and matrices\<close>

type_synonym vec = "jsnum list"
type_synonym matrix = "jsnum list list"

text \<open>Reading an array of numbers inside an arithmetic expression: an index past the end
  reads \<open>undefined\<close>, which arithmetic converts to \<open>NaN\<close>.\<close>

definition nth_num :: "vec \<Rightarrow> nat \<Rightarrow> jsnum" where
  "nth_num a k = (if k < length a then a ! k else NaN)"

text \<open>
  The dense linear-algebra capability (matrix construction from nested sequences, scaled
  identity, multiply, add, subtract, transpose, inverse) comes from a library that is not
  part of the repository. A matrix is the list of its rows, and the operations below are
  the textbook ones. The inverse is not modelled: it is a parameter \<open>math_inv\<close> of every
  function that needs it.
\<close>

text \<open>Modelled from the spec: the identity matrix of the library (\<open>eye\<close>), which the
  source scales to get the scaled identity.\<close>

definition eye :: "nat \<Rightarrow> matrix" where
  "eye n = map (\<lambda>r. map (\<lambda>c. if r = c then Fin 1 else Fin 0) [0..<n]) [0..<n]"

text \<open>Modelled from the spec: the library's product of a matrix and a number.\<close>

definition multiply_scalar :: "matrix \<Rightarrow> jsnum \<Rightarrow> matrix" where
  "multiply_scalar A s = map (map (\<lambda>a. a * s)) A"

text \<open>Modelled from the spec: the library's transpose.\<close>

definition transpose_m :: "matrix \<Rightarrow> matrix" where
  "transpose_m A =
     (case A of [] \<Rightarrow> []
      | r # _ \<Rightarrow> map (\<lambda>c. map (\<lambda>row. nth_num row c) A) [0..<length r])"

text \<open>Modelled from the spec: the library's product of two matrices.\<close>

definition multiply :: "matrix \<Rightarrow> matrix \<Rightarrow> matrix" where
  "multiply A B =
     map (\<lambda>row. map (\<lambda>col. sum_list (map2 (*) row col)) (transpose_m B)) A"

text \<open>Modelled from the spec: the library's sum and difference of two matrices.\<close>

definition add_m :: "matrix \<Rightarrow> matrix \<Rightarrow> matrix" where
  "add_m A B = map2 (map2 (+)) A B"

definition subtract_m :: "matrix \<Rightarrow> matrix \<Rightarrow> matrix" where
  "subtract_m A B = map2 (map2 (-)) A B"

text \<open>\<open>toArray()[0]\<close>: the first row of a matrix. A matrix without rows has no first row
  (the source would read \<open>undefined\<close>); it arises only when the dataset is empty or the
  inverse has no rows, and the empty vector stands for it.\<close>

definition first_row :: "matrix \<Rightarrow> vec" where
  "first_row A = (case A of [] \<Rightarrow> [] | r # _ \<Rightarrow> r)"

text \<open>
  The store: the arrays of numbers allocated so far. An address is a position in the list.
  \<open>new_array\<close> allocates (\<open>new Array\<close>, \<open>concat\<close>, \<open>toArray\<close>), \<open>set_elem\<close> is the
  assignment \<open>a[k] = v\<close>, which extends the array when \<open>k\<close> is past its end.
\<close>

type_synonym store = "vec list"
type_synonym address = nat

definition new_array :: "store \<Rightarrow> vec \<Rightarrow> store \<times> address" where
  "new_array h a = (h @ [a], length h)"

definition set_elem :: "store \<Rightarrow> address \<Rightarrow> nat \<Rightarrow> jsnum \<Rightarrow> store" where
  "set_elem h r k v =
     h[r := (if k < length (h ! r) then (h ! r)[k := v]
             else h ! r @ replicate (k - length (h ! r)) NaN @ [v])]"

section \<open>The program\<close>

text \<open>
  Every function of the source is modelled twice. The functional model takes arrays as
  values; the properties of the computed results are proved about it. The model in the
  store (suffix \<open>_h\<close>) takes arrays by address and passes the store along, with every
  allocation and every assignment to an array element that the source makes; the
  properties about what a call leaves unchanged are proved about it. In the store model the
  caller's function and the library only read the arrays they are given.

  The dataset \<open>{x, y}\<close> (fields \<open>data_x\<close>, \<open>data_y\<close>) and the parameterized function:
  given the parameters it returns a function of the independent variable. The type
  parameter of a record says how arrays are held: \<open>vec\<close> or \<open>address\<close>.
\<close>

record 'a dataset =
  data_x :: 'a
  data_y :: 'a

type_synonym model = "vec \<Rightarrow> jsnum \<Rightarrow> jsnum"

subsection \<open>error\<close>

definition error :: "vec dataset \<Rightarrow> vec \<Rightarrow> model \<Rightarrow> jsnum" where
  "error data params parameterizedFunction =
     (let func = parameterizedFunction params
      in foldl (\<lambda>err i. err + \<bar>nth_num (data_y data) i - func (data_x data ! i)\<bar>)
           (Fin 0) [0..<length (data_x data)])"

text \<open>\<open>error\<close> allocates nothing and assigns to no array: in the store it returns a number
  only.\<close>

definition error_h :: "store \<Rightarrow> address dataset \<Rightarrow> address \<Rightarrow> model \<Rightarrow> jsnum" where
  "error_h h data params parameterizedFunction =
     foldl (\<lambda>err i. err + \<bar>nth_num (h ! data_y data) i
                             - parameterizedFunction (h ! params) (h ! data_x data ! i)\<bar>)
       (Fin 0) [0..<length (h ! data_x data)]"

subsection \<open>gradientFunction\<close>

definition gradientFunction :: "vec dataset \<Rightarrow> vec \<Rightarrow> vec \<Rightarrow> jsnum \<Rightarrow> model \<Rightarrow> matrix" where
  "gradientFunction data evaluatedData params gradientDifference paramFunction =
     (let n = length params; m = length (data_x data)
      in map (\<lambda>param.
           let auxParams = params[param := params ! param + gradientDifference];
               funcParam = paramFunction auxParams
           in map (\<lambda>point. nth_num evaluatedData point - funcParam (data_x data ! point))
                [0..<m])
         [0..<n])"

text \<open>
  In the store: \<open>ans[param] = new Array(m)\<close> and \<open>params.concat()\<close> allocate, the
  assignments go to \<open>auxParams[param]\<close> and to \<open>ans[param][point]\<close>. The outer array
  \<open>ans\<close> is held as the list of the addresses of its rows; \<open>funcParam\<close> reads
  \<open>auxParams\<close> when it is called. The result is the store and the matrix built from
  \<open>ans\<close>.
\<close>

definition gradientFunction_h ::
  "store \<Rightarrow> address dataset \<Rightarrow> address \<Rightarrow> address \<Rightarrow> jsnum \<Rightarrow> model \<Rightarrow> store \<times> matrix" where
  "gradientFunction_h h data evaluatedData params gradientDifference paramFunction =
     (let n = length (h ! params); m = length (h ! data_x data);
          (h', ans) =
            fold (\<lambda>param (h0, ans).
                let (h1, row) = new_array h0 (replicate m NaN);
                    (h2, auxParams) = new_array h1 (h1 ! params);
                    h3 = set_elem h2 auxParams param
                           (nth_num (h2 ! auxParams) param + gradientDifference);
                    h4 = fold (\<lambda>point hp.
                           set_elem hp row point
                             (nth_num (hp ! evaluatedData) point
                                - paramFunction (hp ! auxParams) (hp ! data_x data ! point)))
                         [0..<m] h3
                in (h4, ans @ [row]))
              [0..<n] (h, [])
      in (h', map (\<lambda>row. h' ! row) ans))"

subsection \<open>matrixFunction\<close>

definition matrixFunction :: "vec dataset \<Rightarrow> vec \<Rightarrow> matrix" where
  "matrixFunction data evaluatedData =
     (let m = length (data_x data)
      in [map (\<lambda>point. nth_num (data_y data) point - nth_num evaluatedData point) [0..<m]])"

definition matrixFunction_h :: "store \<Rightarrow> address dataset \<Rightarrow> address \<Rightarrow> store \<times> matrix" where
  "matrixFunction_h h data evaluatedData =
     (let m = length (h ! data_x data);
          (h1, ans) = new_array h (replicate m NaN);
          h2 = fold (\<lambda>point hp.
                 set_elem hp ans point
                   (nth_num (hp ! data_y data) point - nth_num (hp ! evaluatedData) point))
               [0..<m] h1
      in (h2, [h2 ! ans]))"

subsection \<open>step\<close>

definition step ::
  "(matrix \<Rightarrow> matrix) \<Rightarrow> vec dataset \<Rightarrow> vec \<Rightarrow> jsnum \<Rightarrow> jsnum \<Rightarrow> model \<Rightarrow> vec" where
  "step math_inv data params damping gradientDifference parameterizedFunction =
     (let identity =
            multiply_scalar (eye (length params))
              (damping * gradientDifference * gradientDifference);
          l = length (data_x data);
          func = parameterizedFunction params;
          evaluatedData = map (\<lambda>i. func (data_x data ! i)) [0..<l];
          gradientFunc =
            gradientFunction data evaluatedData params gradientDifference
              parameterizedFunction;
          matrixFunc = transpose_m (matrixFunction data evaluatedData);
          inverseMatrix =
            math_inv (add_m identity (multiply gradientFunc (transpose_m gradientFunc)));
          p = subtract_m [params]
                (transpose_m
                  (multiply_scalar
                    (multiply (multiply inverseMatrix gradientFunc) matrixFunc)
                    gradientDifference))
      in first_row p)"

text \<open>In the store: \<open>new Array(l)\<close> allocates \<open>evaluatedData\<close>, whose elements are
  assigned; the returned vector \<open>toArray()[0]\<close> is a new array.\<close>

definition step_h ::
  "(matrix \<Rightarrow> matrix) \<Rightarrow> store \<Rightarrow> address dataset \<Rightarrow> address \<Rightarrow> jsnum \<Rightarrow> jsnum \<Rightarrow> model
     \<Rightarrow> store \<times> address" where
  "step_h math_inv h data params damping gradientDifference parameterizedFunction =
     (let identity =
            multiply_scalar (eye (length (h ! params)))
              (damping * gradientDifference * gradientDifference);
          l = length (h ! data_x data);
          (h1, evaluatedData) = new_array h (replicate l NaN);
          h2 = fold (\<lambda>i hp.
                 set_elem hp evaluatedData i
                   (parameterizedFunction (hp ! params) (hp ! data_x data ! i)))
               [0..<l] h1;
          (h3, gradientFunc) =
            gradientFunction_h h2 data evaluatedData params gradientDifference
              parameterizedFunction;
          (h4, rowMatrix) = matrixFunction_h h3 data evaluatedData;
          matrixFunc = transpose_m rowMatrix;
          inverseMatrix =
            math_inv (add_m identity (multiply gradientFunc (transpose_m gradientFunc)));
          p = subtract_m [h4 ! params]
                (transpose_m
                  (multiply_scalar
                    (multiply (multiply inverseMatrix gradientFunc) matrixFunc)
                    gradientDifference))
      in new_array h4 (first_row p))"

subsection \<open>lma\<close>

text \<open>The options object (field \<open>v\<close> is \<open>vfactor\<close>) and the returned object.\<close>

record 'a config =
  damping :: jsnum
  errorTolerance :: jsnum
  gradientDifference :: jsnum
  initialValues :: 'a
  maxIterations :: jsnum
  vfactor :: jsnum

record 'a result =
  iterations :: nat
  parameterError :: jsnum
  parameterValues :: 'a

text \<open>
  A JavaScript array some of whose slots may be unset: \<open>None\<close> is an unset slot, which reads
  \<open>undefined\<close>. \<open>new Array(n)\<close> is an array of \<open>n\<close> unset slots, and \<open>a.map(g)\<close> is a new
  array in which \<open>g\<close> is applied to the slots of \<open>a\<close> that are set: \<open>map\<close> skips the unset
  slots and leaves them unset.
\<close>

type_synonym slots = "jsnum option list"

definition Array_of_length :: "nat \<Rightarrow> slots" where
  "Array_of_length n = replicate n None"

definition Array_map :: "(jsnum \<Rightarrow> jsnum) \<Rightarrow> slots \<Rightarrow> slots" where
  "Array_map g a = map (map_option g) a"

text \<open>
  The default value of the \<open>options\<close> parameter, used when the caller passes no options
  object. \<open>arity\<close> is \<open>parameterizedFunction.length\<close>, the number of declared arguments
  of the caller's function. \<open>10e-3\<close> is 0.01 and \<open>10e-2\<close> is 0.1.
\<close>

definition default_options :: "nat \<Rightarrow> slots config" where
  "default_options arity =
     \<lparr>damping = Fin 0,
      errorTolerance = Fin (10 / 10 ^ 3),
      gradientDifference = Fin (10 / 10 ^ 2),
      initialValues = Array_map (\<lambda>_. Fin 1) (Array_of_length arity),
      maxIterations = Fin 100,
      vfactor = Fin 1.5\<rparr>"

text \<open>The parameter \<open>options = {...}\<close>: the default value stands in when the caller passes no
  options object; an object that the caller passes is used as it is.\<close>

definition options_or_default :: "nat \<Rightarrow> slots config option \<Rightarrow> slots config" where
  "options_or_default arity opts =
     (case opts of None \<Rightarrow> default_options arity | Some given \<Rightarrow> given)"

text \<open>
  The functions of this program compute on arrays of numbers: the caller's function is
  declared on \<open>number[]\<close>, and \<open>step\<close> hands the parameter array to \<open>math.subtract\<close>, which
  has no case for an entry that is \<open>undefined\<close> and raises a \<open>TypeError\<close>. So a call of
  \<open>lma\<close> whose \<open>initialValues\<close> has an unset slot ends in that exception, in the first call
  of \<open>step\<close>, and returns nothing. \<open>numeric_options\<close> is the options object with its
  \<open>initialValues\<close> read as an array of numbers, when every slot is set.
\<close>

datatype exception = TypeError

definition numeric_options :: "slots config \<Rightarrow> vec config option" where
  "numeric_options options =
     map_option
       (\<lambda>numbers.
          \<lparr>damping = damping options,
           errorTolerance = errorTolerance options,
           gradientDifference = gradientDifference options,
           initialValues = numbers,
           maxIterations = maxIterations options,
           vfactor = vfactor options\<rparr>)
       (those (initialValues options))"

text \<open>
  In the store the default value allocates: \<open>new Array\<close> and \<open>map\<close> each make a new array.
  The store holds arrays of numbers; the result is \<open>None\<close> when the arrays of the default
  value have an unset slot, and the call ends in the exception above.
\<close>

definition options_or_default_h ::
  "store \<Rightarrow> nat \<Rightarrow> address config option \<Rightarrow> (store \<times> address config) option" where
  "options_or_default_h h arity opts =
     (case opts of
        None \<Rightarrow>
          (case (those (Array_of_length arity),
                 those (Array_map (\<lambda>_. Fin 1) (Array_of_length arity))) of
             (Some unset_numbers, Some mapped_numbers) \<Rightarrow>
               (let (h1, unset) = new_array h unset_numbers;
                    (h2, mapped) = new_array h1 mapped_numbers
                in Some (h2, \<lparr>damping = Fin 0,
                              errorTolerance = Fin (10 / 10 ^ 3),
                              gradientDifference = Fin (10 / 10 ^ 2),
                              initialValues = mapped,
                              maxIterations = Fin 100,
                              vfactor = Fin 1.5\<rparr>))
           | _ \<Rightarrow> None)
      | Some given \<Rightarrow> Some (h, given))"

text \<open>The variables of the first loop (\<open>do ... while\<close>) that the loop changes.\<close>

record 'a bracket_state =
  damp :: jsnum
  count :: nat
  par :: 'a

text \<open>
  The first loop. \<open>err\<close> is the error at the initial values; the loop does not change it.
  The inner \<open>case\<close> is the \<open>if\<close> of the loop body: \<open>None\<close> is \<open>break\<close>. After the body,
  \<open>count++\<close> and the test of \<open>while\<close>. The loop may run forever: the result is \<open>None\<close>
  then.
\<close>

partial_function (option) bracketing ::
  "(matrix \<Rightarrow> matrix) \<Rightarrow> vec dataset \<Rightarrow> model \<Rightarrow> vec config \<Rightarrow> jsnum
     \<Rightarrow> vec bracket_state \<Rightarrow> vec bracket_state option" where
  "bracketing math_inv data f options err s =
     (let stepD = step math_inv data (par s) (damp s) (gradientDifference options) f;
          errD = error data stepD f;
          stepV = step math_inv data (par s) (damp s / vfactor options)
                    (gradientDifference options) f;
          errV = error data stepV f
      in case (if err > errD \<or> err > errV
               then (if errD > errV
                     then Some (s\<lparr>damp := damp s / vfactor options, par := stepV\<rparr>)
                     else None)
               else Some (s\<lparr>damp := damp s * vfactor options\<rparr>)) of
           None \<Rightarrow> Some s
         | Some s1 \<Rightarrow>
             (let s2 = s1\<lparr>count := count s1 + 1\<rparr>
              in if err < errD \<or> err < errV \<or> Fin (real (count s2)) < maxIterations options
                 then bracketing math_inv data f options err s2
                 else Some s2))"

partial_function (option) bracketing_h ::
  "(matrix \<Rightarrow> matrix) \<Rightarrow> address dataset \<Rightarrow> model \<Rightarrow> address config \<Rightarrow> jsnum
     \<Rightarrow> store \<times> address bracket_state \<Rightarrow> (store \<times> address bracket_state) option" where
  "bracketing_h math_inv data f options err hs =
     (let (h, s) = hs;
          (h1, stepD) = step_h math_inv h data (par s) (damp s) (gradientDifference options) f;
          errD = error_h h1 data stepD f;
          (h2, stepV) = step_h math_inv h1 data (par s) (damp s / vfactor options)
                          (gradientDifference options) f;
          errV = error_h h2 data stepV f
      in case (if err > errD \<or> err > errV
               then (if errD > errV
                     then Some (s\<lparr>damp := damp s / vfactor options, par := stepV\<rparr>)
                     else None)
               else Some (s\<lparr>damp := damp s * vfactor options\<rparr>)) of
           None \<Rightarrow> Some (h2, s)
         | Some s1 \<Rightarrow>
             (let s2 = s1\<lparr>count := count s1 + 1\<rparr>
              in if err < errD \<or> err < errV \<or> Fin (real (count s2)) < maxIterations options
                 then bracketing_h math_inv data f options err (h2, s2)
                 else Some (h2, s2)))"

text \<open>
  The variables of the second loop (\<open>for\<close>); \<open>iter\<close> is the variable \<open>i\<close>. The last field
  is a history variable, not a variable of the program: it records, for every call of
  \<open>step\<close> in the second loop, the parameter vector and the damping passed to \<open>step\<close> and
  the error computed from its result. Nothing else depends on it.
\<close>

record 'a refine_state =
  parameters :: 'a
  err :: jsnum
  converged :: bool
  iter :: nat
  lastParams :: 'a
  calls :: "('a \<times> jsnum \<times> jsnum) list"

partial_function (option) refine ::
  "(matrix \<Rightarrow> matrix) \<Rightarrow> vec dataset \<Rightarrow> model \<Rightarrow> vec config \<Rightarrow> jsnum
     \<Rightarrow> vec refine_state \<Rightarrow> vec refine_state option" where
  "refine math_inv data f options dmp s =
     (if Fin (real (iter s)) < maxIterations options \<and> \<not> converged s
      then (let parameters1 =
                  step math_inv data (parameters s) dmp (gradientDifference options) f;
                err1 = error data parameters1 f;
                s1 = s\<lparr>parameters := parameters1, err := err1,
                       calls := calls s @ [(parameters s, dmp, err1)]\<rparr>
            in if isNaN err1 then Some s1
               else refine math_inv data f options dmp
                      (s1\<lparr>converged := (err1 \<le> errorTolerance options),
                          lastParams := parameters1,
                          iter := iter s + 1\<rparr>))
      else Some s)"

partial_function (option) refine_h ::
  "(matrix \<Rightarrow> matrix) \<Rightarrow> address dataset \<Rightarrow> model \<Rightarrow> address config \<Rightarrow> jsnum
     \<Rightarrow> store \<times> address refine_state \<Rightarrow> (store \<times> address refine_state) option" where
  "refine_h math_inv data f options dmp hs =
     (let (h, s) = hs
      in if Fin (real (iter s)) < maxIterations options \<and> \<not> converged s
         then (let (h1, parameters1) =
                     step_h math_inv h data (parameters s) dmp (gradientDifference options) f;
                   err1 = error_h h1 data parameters1 f;
                   s1 = s\<lparr>parameters := parameters1, err := err1,
                          calls := calls s @ [(parameters s, dmp, err1)]\<rparr>
               in if isNaN err1 then Some (h1, s1)
                  else refine_h math_inv data f options dmp
                         (h1, s1\<lparr>converged := (err1 \<le> errorTolerance options),
                                 lastParams := parameters1,
                                 iter := iter s + 1\<rparr>))
         else Some hs)"

text \<open>
  The body of \<open>lma\<close> up to the end of the second loop: the state in which the first loop
  was left and the state in which the second loop was left. \<open>opts\<close> is the options
  argument, \<open>None\<close> when the caller passes none. The result is \<open>None\<close> when a loop runs
  forever, \<open>Some (Inl TypeError)\<close> when the call ends in the exception and \<open>Some (Inr r)\<close>
  when it gets to the \<open>return\<close> with \<open>r\<close>.
\<close>

definition lma_run ::
  "(matrix \<Rightarrow> matrix) \<Rightarrow> nat \<Rightarrow> vec dataset \<Rightarrow> model \<Rightarrow> slots config option
     \<Rightarrow> (exception + vec bracket_state \<times> vec refine_state) option" where
  "lma_run math_inv arity data f opts =
     (case numeric_options (options_or_default arity opts) of
        None \<Rightarrow> Some (Inl TypeError)
      | Some options \<Rightarrow>
          (let parameters0 = initialValues options;
               err0 = error data parameters0 f
           in case bracketing math_inv data f options err0
                     \<lparr>damp = damping options, count = 0, par = parameters0\<rparr> of
                None \<Rightarrow> None
              | Some b \<Rightarrow>
                  (case refine math_inv data f options (damp b)
                          \<lparr>parameters = parameters0, err = err0,
                           converged = (err0 \<le> errorTolerance options), iter = 0,
                           lastParams = initialValues options, calls = []\<rparr> of
                     None \<Rightarrow> None
                   | Some s \<Rightarrow> Some (Inr (b, s)))))"

text \<open>The returned object.\<close>

definition lma_result :: "vec dataset \<Rightarrow> model \<Rightarrow> vec refine_state \<Rightarrow> vec result" where
  "lma_result data f s =
     \<lparr>iterations = iter s,
      parameterError = (if isNaN (err s) then error data (lastParams s) f else err s),
      parameterValues = (if isNaN (err s) then lastParams s else parameters s)\<rparr>"

definition lma ::
  "(matrix \<Rightarrow> matrix) \<Rightarrow> nat \<Rightarrow> vec dataset \<Rightarrow> model \<Rightarrow> slots config option
     \<Rightarrow> (exception + vec result) option" where
  "lma math_inv arity data f opts =
     map_option (map_sum id (\<lambda>(b, s). lma_result data f s))
       (lma_run math_inv arity data f opts)"

text \<open>\<open>lma\<close> in the store. The returned \<open>parameterValues\<close> is the address of an array.\<close>

definition lma_h ::
  "(matrix \<Rightarrow> matrix) \<Rightarrow> nat \<Rightarrow> store \<Rightarrow> address dataset \<Rightarrow> model \<Rightarrow> address config option
     \<Rightarrow> (exception + store \<times> address result) option" where
  "lma_h math_inv arity h data f opts =
     (case options_or_default_h h arity opts of
        None \<Rightarrow> Some (Inl TypeError)
      | Some (h0, options) \<Rightarrow>
          (let parameters0 = initialValues options;
               err0 = error_h h0 data parameters0 f
           in case bracketing_h math_inv data f options err0
                     (h0, \<lparr>damp = damping options, count = 0, par = parameters0\<rparr>) of
                None \<Rightarrow> None
              | Some (h1, b) \<Rightarrow>
                  (case refine_h math_inv data f options (damp b)
                          (h1, \<lparr>parameters = parameters0, err = err0,
                                converged = (err0 \<le> errorTolerance options), iter = 0,
                                lastParams = initialValues options, calls = []\<rparr>) of
                     None \<Rightarrow> None
                   | Some (h2, s) \<Rightarrow>
                       Some (Inr (h2,
                         \<lparr>iterations = iter s,
                          parameterError =
                            (if isNaN (err s) then error_h h2 data (lastParams s) f
                             else err s),
                          parameterValues =
                            (if isNaN (err s) then lastParams s else parameters s)\<rparr>)))))"
section \<open>The specification's formulation\<close>

text \<open>
  The step as the specification states it: with \<open>J\<close> the matrix of
  \<open>gradientFunction\<close> at the current parameters, \<open>r\<close> the row vector \<open>y - evaluatedData\<close>
  and \<open>I\<close> the identity, the update is
  \<open>\<delta> = gradientDifference \<cdot> inverse(I \<cdot> (damping \<cdot> gradientDifference\<^sup>2) + J \<cdot> J\<^sup>T) \<cdot> J \<cdot> r\<^sup>T\<close>,
  a column of one entry per parameter, and the new parameters are \<open>params - \<delta>\<close>.
\<close>

definition scalar_multiply :: "jsnum \<Rightarrow> matrix \<Rightarrow> matrix" where
  "scalar_multiply s A = map (map (\<lambda>a. s * a)) A"

definition step_spec ::
  "(matrix \<Rightarrow> matrix) \<Rightarrow> vec dataset \<Rightarrow> vec \<Rightarrow> jsnum \<Rightarrow> jsnum \<Rightarrow> model \<Rightarrow> vec" where
  "step_spec math_inv data params d g f =
     (let evaluatedData = map (f params) (data_x data);
          J = gradientFunction data evaluatedData params g f;
          r = map2 (-) (data_y data) evaluatedData;
          A = add_m (multiply_scalar (eye (length params)) (d * (g * g)))
                (multiply J (transpose_m J));
          delta = scalar_multiply g (multiply (multiply (math_inv A) J) (transpose_m [r]))
      in map2 (-) params (concat delta))"

text \<open>
  The first loop as the specification states it, as a relation between the state in which
  an iteration starts and the state in which the loop is left. \<open>e\<close> is \<open>err\<close>. One rule
  for each way through an iteration: leave the loop from inside the body; accept
  \<open>stepV\<close>, or raise the damping, and then either go on or stop at the test of the loop.
\<close>

inductive phase1_spec ::
  "(matrix \<Rightarrow> matrix) \<Rightarrow> vec dataset \<Rightarrow> model \<Rightarrow> vec config \<Rightarrow> jsnum
     \<Rightarrow> vec bracket_state \<Rightarrow> vec bracket_state \<Rightarrow> bool"
  for math_inv data f options e where
  exit_loop:
    "stepD = step math_inv data (par s) (damp s) (gradientDifference options) f
     \<Longrightarrow> errD = error data stepD f
     \<Longrightarrow> stepV = step math_inv data (par s) (damp s / vfactor options)
                 (gradientDifference options) f
     \<Longrightarrow> errV = error data stepV f
     \<Longrightarrow> e > errD \<or> e > errV \<Longrightarrow> \<not> errD > errV
     \<Longrightarrow> phase1_spec math_inv data f options e s s"
| accept_continue:
    "stepD = step math_inv data (par s) (damp s) (gradientDifference options) f
     \<Longrightarrow> errD = error data stepD f
     \<Longrightarrow> stepV = step math_inv data (par s) (damp s / vfactor options)
                 (gradientDifference options) f
     \<Longrightarrow> errV = error data stepV f
     \<Longrightarrow> e > errD \<or> e > errV \<Longrightarrow> errD > errV
     \<Longrightarrow> s' = s\<lparr>damp := damp s / vfactor options, par := stepV, count := count s + 1\<rparr>
     \<Longrightarrow> e < errD \<or> e < errV \<or> Fin (real (count s')) < maxIterations options
     \<Longrightarrow> phase1_spec math_inv data f options e s' t
     \<Longrightarrow> phase1_spec math_inv data f options e s t"
| accept_stop:
    "stepD = step math_inv data (par s) (damp s) (gradientDifference options) f
     \<Longrightarrow> errD = error data stepD f
     \<Longrightarrow> stepV = step math_inv data (par s) (damp s / vfactor options)
                 (gradientDifference options) f
     \<Longrightarrow> errV = error data stepV f
     \<Longrightarrow> e > errD \<or> e > errV \<Longrightarrow> errD > errV
     \<Longrightarrow> s' = s\<lparr>damp := damp s / vfactor options, par := stepV, count := count s + 1\<rparr>
     \<Longrightarrow> \<not> (e < errD \<or> e < errV \<or> Fin (real (count s')) < maxIterations options)
     \<Longrightarrow> phase1_spec math_inv data f options e s s'"
| increase_continue:
    "stepD = step math_inv data (par s) (damp s) (gradientDifference options) f
     \<Longrightarrow> errD = error data stepD f
     \<Longrightarrow> stepV = step math_inv data (par s) (damp s / vfactor options)
                 (gradientDifference options) f
     \<Longrightarrow> errV = error data stepV f
     \<Longrightarrow> \<not> (e > errD \<or> e > errV)
     \<Longrightarrow> s' = s\<lparr>damp := damp s * vfactor options, count := count s + 1\<rparr>
     \<Longrightarrow> e < errD \<or> e < errV \<or> Fin (real (count s')) < maxIterations options
     \<Longrightarrow> phase1_spec math_inv data f options e s' t
     \<Longrightarrow> phase1_spec math_inv data f options e s t"
| increase_stop:
    "stepD = step math_inv data (par s) (damp s) (gradientDifference options) f
     \<Longrightarrow> errD = error data stepD f
     \<Longrightarrow> stepV = step math_inv data (par s) (damp s / vfactor options)
                 (gradientDifference options) f
     \<Longrightarrow> errV = error data stepV f
     \<Longrightarrow> \<not> (e > errD \<or> e > errV)
     \<Longrightarrow> s' = s\<lparr>damp := damp s * vfactor options, count := count s + 1\<rparr>
     \<Longrightarrow> \<not> (e < errD \<or> e < errV \<or> Fin (real (count s')) < maxIterations options)
     \<Longrightarrow> phase1_spec math_inv data f options e s s'"

section \<open>Auxiliary notions\<close>

text \<open>The second loop as a relation between the state in which an iteration starts and the
  state in which the loop is left: the test fails, the error is \<open>NaN\<close> (\<open>break\<close>), or
  the iteration completes and the loop goes on.\<close>

inductive refining ::
  "(matrix \<Rightarrow> matrix) \<Rightarrow> vec dataset \<Rightarrow> model \<Rightarrow> vec config \<Rightarrow> jsnum
     \<Rightarrow> vec refine_state \<Rightarrow> vec refine_state \<Rightarrow> bool"
  for math_inv data f options dmp where
  leave: "\<not> (Fin (real (iter s)) < maxIterations options \<and> \<not> converged s)
     \<Longrightarrow> refining math_inv data f options dmp s s"
| break: "Fin (real (iter s)) < maxIterations options \<Longrightarrow> \<not> converged s
     \<Longrightarrow> p1 = step math_inv data (parameters s) dmp (gradientDifference options) f
     \<Longrightarrow> isNaN (error data p1 f)
     \<Longrightarrow> refining math_inv data f options dmp s
           (s\<lparr>parameters := p1, err := error data p1 f,
              calls := calls s @ [(parameters s, dmp, error data p1 f)]\<rparr>)"
| again: "Fin (real (iter s)) < maxIterations options \<Longrightarrow> \<not> converged s
     \<Longrightarrow> p1 = step math_inv data (parameters s) dmp (gradientDifference options) f
     \<Longrightarrow> \<not> isNaN (error data p1 f)
     \<Longrightarrow> refining math_inv data f options dmp
           (s\<lparr>parameters := p1, err := error data p1 f,
              calls := calls s @ [(parameters s, dmp, error data p1 f)],
              converged := (error data p1 f \<le> errorTolerance options),
              lastParams := p1, iter := iter s + 1\<rparr>) t
     \<Longrightarrow> refining math_inv data f options dmp s t"

text \<open>The number of recorded calls of \<open>step\<close> whose error is not \<open>NaN\<close>.\<close>

definition counted :: "('a \<times> jsnum \<times> jsnum) list \<Rightarrow> nat" where
  "counted cs = length (filter (\<lambda>(p, d, e). \<not> isNaN e) cs)"

text \<open>Every array of the store \<open>h\<close> is in the store \<open>h'\<close>, at the same address and with the
  same elements.\<close>

definition unchanged :: "store \<Rightarrow> store \<Rightarrow> bool" where
  "unchanged h h' = (length h \<le> length h' \<and> (\<forall>a<length h. h' ! a = h ! a))"

text \<open>An options object whose \<open>initialValues\<close> is an array of numbers, as the caller passes
  it: every slot is set. Then, from the store model to the functional model: the arrays at
  the addresses that a dataset, an options object, the state of a loop or a returned object
  holds; and the states of the second loop whose addresses are all allocated.\<close>

definition values_of :: "store \<Rightarrow> address dataset \<Rightarrow> vec dataset" where
  "values_of h data = \<lparr>data_x = h ! data_x data, data_y = h ! data_y data\<rparr>"

definition supplied :: "vec config \<Rightarrow> slots config" where
  "supplied options =
     \<lparr>damping = damping options, errorTolerance = errorTolerance options,
      gradientDifference = gradientDifference options,
      initialValues = map Some (initialValues options),
      maxIterations = maxIterations options, vfactor = vfactor options\<rparr>"

definition options_values :: "store \<Rightarrow> address config \<Rightarrow> vec config" where
  "options_values h opts =
     \<lparr>damping = damping opts, errorTolerance = errorTolerance opts,
      gradientDifference = gradientDifference opts, initialValues = h ! initialValues opts,
      maxIterations = maxIterations opts, vfactor = vfactor opts\<rparr>"

definition bracket_values :: "store \<Rightarrow> address bracket_state \<Rightarrow> vec bracket_state" where
  "bracket_values h s = \<lparr>damp = damp s, count = count s, par = h ! par s\<rparr>"

definition refine_values :: "store \<Rightarrow> address refine_state \<Rightarrow> vec refine_state" where
  "refine_values h s =
     \<lparr>parameters = h ! parameters s, err = err s, converged = converged s, iter = iter s,
      lastParams = h ! lastParams s, calls = map (\<lambda>(p, d, e). (h ! p, d, e)) (calls s)\<rparr>"

definition result_values :: "store \<Rightarrow> address result \<Rightarrow> vec result" where
  "result_values h r =
     \<lparr>iterations = iterations r, parameterError = parameterError r,
      parameterValues = h ! parameterValues r\<rparr>"

definition valid_refine :: "store \<Rightarrow> address refine_state \<Rightarrow> bool" where
  "valid_refine h s =
     (parameters s < length h \<and> lastParams s < length h
      \<and> list_all (\<lambda>c. fst c < length h) (calls s))"

section \<open>Example inputs\<close>

text \<open>The inverse of a matrix of one row and one column, \<open>[[a]]\<close>, is \<open>[[1 / a]]\<close>: the
  inverse used in the examples, which fit one parameter.\<close>

definition inv_1x1 :: "matrix \<Rightarrow> matrix" where
  "inv_1x1 A = map (map (\<lambda>a. Fin 1 / a)) A"

text \<open>Parameterized functions: \<open>p => x => p[0] * x + p[1]\<close>, \<open>p => x => p[0]\<close>,
  \<open>p => x => p[0] * p[0]\<close>, \<open>p => x => x / p[0]\<close> and \<open>p => x => x / (p[0] - 1)\<close>.\<close>

definition line :: model where
  "line p x = nth_num p 0 * x + nth_num p 1"

definition constant_model :: model where
  "constant_model p x = nth_num p 0"

definition square :: model where
  "square p x = nth_num p 0 * nth_num p 0"

definition ratio :: model where
  "ratio p x = x / nth_num p 0"

definition pole :: model where
  "pole p x = x / (nth_num p 0 - Fin 1)"

text \<open>Datasets of one sample and options for them.\<close>

definition sample :: "real \<Rightarrow> real \<Rightarrow> vec dataset" where
  "sample x0 y0 = \<lparr>data_x = [Fin x0], data_y = [Fin y0]\<rparr>"

definition options_for :: "real \<Rightarrow> real \<Rightarrow> real \<Rightarrow> real \<Rightarrow> real \<Rightarrow> vec config" where
  "options_for d g p0 n v =
     \<lparr>damping = Fin d, errorTolerance = Fin 0.01, gradientDifference = Fin g,
      initialValues = [Fin p0], maxIterations = Fin n, vfactor = Fin v\<rparr>"

section \<open>Properties of the numbers\<close>

lemma NaN_plus [simp]: "NaN + a = NaN" "a + NaN = NaN"
  by (cases a; simp)+

lemma NaN_minus [simp]: "NaN - a = NaN" "a - NaN = NaN"
  by (cases a; simp add: minus_jsnum_def)+

lemma NaN_times [simp]: "NaN * a = NaN" "a * NaN = NaN"
  by (cases a; simp)+

lemma NaN_divide [simp]: "NaN / a = NaN" "a / NaN = NaN"
  by (cases a; simp)+

lemma abs_NaN_iff [simp]: "\<bar>a\<bar> = NaN \<longleftrightarrow> a = NaN"
  by (cases a) simp_all

lemma not_less_NaN [simp]: "\<not> a < NaN" "\<not> NaN < a"
  by (cases a; simp)+

lemma not_le_NaN [simp]: "\<not> a \<le> NaN" "\<not> NaN \<le> a"
  by (simp_all add: less_eq_jsnum_def)

lemma Fin_minus [simp]: "Fin r - Fin s = Fin (r - s)"
  by (simp add: minus_jsnum_def)

lemma le_Fin [simp]: "(Fin r \<le> Fin s) = (r \<le> s)"
  by (auto simp: less_eq_jsnum_def)

lemma times_jsnum_commute: "(a::jsnum) * b = b * a"
  by (cases a; cases b) (simp_all add: mult.commute)

lemma inf_of_times_Fin:
  "inf_of s * Fin r = inf_of (s * sgn r)" "Fin r * inf_of s = inf_of (sgn r * s)"
  by (auto simp: inf_of_def sgn_real_def zero_less_mult_iff mult_less_0_iff)

lemma inf_of_times_inf [simp]:
  "inf_of s * PInf = inf_of s" "inf_of s * NInf = inf_of (- s)"
  "PInf * inf_of s = inf_of s" "NInf * inf_of s = inf_of (- s)"
  by (auto simp: inf_of_def)

lemma inf_of_sgn [simp]: "inf_of (sgn r) = inf_of r" "inf_of (- sgn r) = inf_of (- r)"
  by (auto simp: inf_of_def sgn_real_def)

lemma inf_of_cong_sgn: "sgn r = sgn s \<Longrightarrow> inf_of r = inf_of s"
  by (auto simp: inf_of_def sgn_real_def split: if_splits)

lemma times_jsnum_assoc: "(a::jsnum) * b * c = a * (b * c)"
  by (cases a; cases b; cases c)
    (simp_all add: inf_of_times_Fin mult.assoc, (rule inf_of_cong_sgn, simp add: sgn_mult)+)

lemma sum_list_NaN: "NaN \<in> set as \<Longrightarrow> sum_list as = NaN"
  by (induction as) auto

lemma foldl_plus_sum_list:
  fixes z :: jsnum
  shows "foldl (\<lambda>a i. a + g i) z ks = z + sum_list (map g ks)"
  by (induction ks arbitrary: z) (simp_all add: add.assoc)

section \<open>error\<close>

lemma error_sum:
  "error data params f =
     (\<Sum>i\<leftarrow>[0..<length (data_x data)]. \<bar>nth_num (data_y data) i - f params (data_x data ! i)\<bar>)"
  by (simp add: error_def foldl_plus_sum_list zero_jsnum_def [symmetric])

lemma error_one_sample:
  "error \<lparr>data_x = [x0], data_y = [y0]\<rparr> p f = Fin 0 + \<bar>y0 - f p x0\<bar>"
  by (simp add: error_def nth_num_def)

text \<open>
  C6. \<open>error\<close> returns the sum over the samples \<open>i\<close> of \<open>|y\<^sub>i - evaluator(x\<^sub>i)|\<close>, where
  the evaluator is the function built from the parameter vector: as a sum over the indices
  of \<open>x\<close> and, for a dataset whose \<open>x\<close> and \<open>y\<close> have the same length, as a sum over the
  pairs of the samples. If the evaluator gives \<open>NaN\<close> at some sample, the result is \<open>NaN\<close>.
\<close>

theorem error_is_sum_of_absolute_residuals:
  "error data params f =
     (\<Sum>i\<leftarrow>[0..<length (data_x data)]. \<bar>nth_num (data_y data) i - f params (data_x data ! i)\<bar>)
   \<and> (length (data_y data) = length (data_x data) \<longrightarrow>
        error data params f = (\<Sum>(xi, yi)\<leftarrow>zip (data_x data) (data_y data). \<bar>yi - f params xi\<bar>))
   \<and> ((\<exists>i<length (data_x data). isNaN (f params (data_x data ! i))) \<longrightarrow>
        isNaN (error data params f))"
proof (intro conjI impI)
  show "error data params f =
     (\<Sum>i\<leftarrow>[0..<length (data_x data)]. \<bar>nth_num (data_y data) i - f params (data_x data ! i)\<bar>)"
    by (rule error_sum)
next
  assume len: "length (data_y data) = length (data_x data)"
  have "map (\<lambda>i. \<bar>nth_num (data_y data) i - f params (data_x data ! i)\<bar>)
          [0..<length (data_x data)]
        = map (\<lambda>(xi, yi). \<bar>yi - f params xi\<bar>) (zip (data_x data) (data_y data))"
    by (rule nth_equalityI) (simp_all add: len nth_num_def)
  then show "error data params f
      = (\<Sum>(xi, yi)\<leftarrow>zip (data_x data) (data_y data). \<bar>yi - f params xi\<bar>)"
    by (simp add: error_sum)
next
  assume "\<exists>i<length (data_x data). isNaN (f params (data_x data ! i))"
  then obtain i where i: "i < length (data_x data)" "f params (data_x data ! i) = NaN"
    by (auto simp: isNaN_def)
  have "\<bar>nth_num (data_y data) i - f params (data_x data ! i)\<bar> = NaN"
    by (simp add: i)
  then have "NaN \<in> (\<lambda>i. \<bar>nth_num (data_y data) i - f params (data_x data ! i)\<bar>)
                     ` set [0..<length (data_x data)]"
    using i(1) by (metis (no_types, lifting) atLeast0LessThan image_eqI lessThan_iff set_upt)
  then show "isNaN (error data params f)"
    by (simp only: error_sum isNaN_def sum_list_NaN set_map)
qed

theorem error_is_sum_of_absolute_residuals_witness:
  "length (data_y \<lparr>data_x = [Fin 0, Fin 1], data_y = [Fin 1, Fin 3]\<rparr>)
     = length (data_x \<lparr>data_x = [Fin 0, Fin 1], data_y = [Fin 1, Fin 3]\<rparr>)
   \<and> isNaN (ratio [Fin 0] (data_x \<lparr>data_x = [Fin 0, Fin 1], data_y = [Fin 1, Fin 3]\<rparr> ! 0))
   \<and> error \<lparr>data_x = [Fin 0, Fin 1], data_y = [Fin 1, Fin 3]\<rparr> [Fin 2] ratio
       = \<bar>Fin 1 - ratio [Fin 2] (Fin 0)\<bar> + (\<bar>Fin 3 - ratio [Fin 2] (Fin 1)\<bar> + 0)
   \<and> isNaN (error \<lparr>data_x = [Fin 0, Fin 1], data_y = [Fin 1, Fin 3]\<rparr> [Fin 0] ratio)"
proof -
  let ?d = "\<lparr>data_x = [Fin 0, Fin 1], data_y = [Fin 1, Fin 3]\<rparr>"
  have len: "length (data_y ?d) = length (data_x ?d)" by simp
  have nan: "isNaN (ratio [Fin 0] (data_x ?d ! 0))"
    by (simp add: ratio_def nth_num_def isNaN_def inf_of_def)
  then have ex: "\<exists>i<length (data_x ?d). isNaN (ratio [Fin 0] (data_x ?d ! i))"
    by (intro exI [of _ 0]) simp
  have "error ?d [Fin 2] ratio
      = (\<Sum>(xi, yi)\<leftarrow>zip (data_x ?d) (data_y ?d). \<bar>yi - ratio [Fin 2] xi\<bar>)"
    using error_is_sum_of_absolute_residuals [of ?d "[Fin 2]" ratio] len by blast
  moreover have "isNaN (error ?d [Fin 0] ratio)"
    using error_is_sum_of_absolute_residuals [of ?d "[Fin 0]" ratio] ex by blast
  ultimately show ?thesis using len nan by simp
qed

section \<open>gradientFunction\<close>

lemma length_gradientFunction [simp]:
  "length (gradientFunction data ev params g f) = length params"
  by (simp add: gradientFunction_def)

text \<open>
  C5. For a dataset of \<open>m\<close> samples, a vector \<open>evaluatedData\<close> of length \<open>m\<close> and \<open>n\<close>
  parameters, \<open>gradientFunction\<close> returns a matrix of \<open>n\<close> rows of length \<open>m\<close>; the entry
  in row \<open>p\<close> and column \<open>point\<close> is \<open>evaluatedData[point]\<close> minus the value at
  \<open>x[point]\<close> of the function built from the parameters with \<open>gradientDifference\<close> added
  to parameter \<open>p\<close> and the other parameters as they are.
\<close>

theorem gradientFunction_entries:
  assumes "length evaluatedData = length (data_x data)"
  shows "length (gradientFunction data evaluatedData params g f) = length params
    \<and> (\<forall>p<length params.
          length (gradientFunction data evaluatedData params g f ! p) = length (data_x data)
          \<and> (\<forall>point<length (data_x data).
                gradientFunction data evaluatedData params g f ! p ! point
                  = evaluatedData ! point
                    - f (params[p := params ! p + g]) (data_x data ! point)))"
  using assms by (simp add: gradientFunction_def nth_num_def)

theorem gradientFunction_entries_witness:
  "length [Fin 1, Fin 3] = length (data_x \<lparr>data_x = [Fin 0, Fin 1], data_y = [Fin 1, Fin 3]\<rparr>)
   \<and> gradientFunction \<lparr>data_x = [Fin 0, Fin 1], data_y = [Fin 1, Fin 3]\<rparr> [Fin 1, Fin 3]
         [Fin 2, Fin 1] (Fin 1) line
       = [[Fin 0, Fin (- 1)], [Fin (- 1), Fin (- 1)]]"
proof -
  let ?d = "\<lparr>data_x = [Fin 0, Fin 1], data_y = [Fin 1, Fin 3]\<rparr>"
  let ?J = "gradientFunction ?d [Fin 1, Fin 3] [Fin 2, Fin 1] (Fin 1) line"
  have h: "length [Fin 1, Fin 3] = length (data_x ?d)" by simp
  note g = gradientFunction_entries [OF h, of "[Fin 2, Fin 1]" "Fin 1" line]
  have len: "length ?J = 2" using g by simp
  have r0: "length (?J ! 0) = 2" "?J ! 0 ! 0 = Fin 0" "?J ! 0 ! 1 = Fin (- 1)"
    using g by (simp_all add: line_def nth_num_def)
  have r1: "length (?J ! 1) = 2" "?J ! 1 ! 0 = Fin (- 1)" "?J ! 1 ! 1 = Fin (- 1)"
    using g by (simp_all add: line_def nth_num_def)
  have "?J = [?J ! 0, ?J ! 1]"
    using len by (intro nth_equalityI) (auto simp: less_Suc_eq numeral_2_eq_2)
  also have "?J ! 0 = [Fin 0, Fin (- 1)]"
    using r0 by (intro nth_equalityI) (auto simp: less_Suc_eq numeral_2_eq_2)
  also have "?J ! 1 = [Fin (- 1), Fin (- 1)]"
    using r1 by (intro nth_equalityI) (auto simp: less_Suc_eq numeral_2_eq_2)
  finally show ?thesis using h by simp
qed

section \<open>step\<close>

lemma length_multiply [simp]: "length (multiply A B) = length A"
  by (simp add: multiply_def)

lemma length_multiply_scalar [simp]: "length (multiply_scalar A s) = length A"
  by (simp add: multiply_scalar_def)

lemma length_eye [simp]: "length (eye n) = n"
  by (simp add: eye_def)

lemma length_add_m [simp]: "length (add_m A B) = min (length A) (length B)"
  by (simp add: add_m_def)

lemma transpose_m_row: "transpose_m [r] = map (\<lambda>c. [r ! c]) [0..<length r]"
  by (simp add: transpose_m_def nth_num_def)

lemma length_transpose_m: "A \<noteq> [] \<Longrightarrow> length (transpose_m A) = length (hd A)"
  by (cases A) (simp_all add: transpose_m_def)

lemma concat_column:
  "\<forall>row\<in>set Delta. length row = 1 \<Longrightarrow> concat Delta = map (\<lambda>row. nth_num row 0) Delta"
proof (induction Delta)
  case Nil
  then show ?case by simp
next
  case (Cons a as)
  then obtain x where "a = [x]" by (cases a) auto
  with Cons show ?case by (simp add: nth_num_def)
qed

lemma transpose_m_column:
  assumes "Delta \<noteq> []" "\<forall>row\<in>set Delta. length row = 1"
  shows "transpose_m Delta = [concat Delta]"
proof -
  obtain r rs where D: "Delta = r # rs" using assms(1) by (cases Delta) auto
  then have "length r = 1" using assms(2) by simp
  then show ?thesis
    unfolding concat_column [OF assms(2)] by (simp add: transpose_m_def D)
qed

lemma rows_multiply: "row \<in> set (multiply A B) \<Longrightarrow> length row = length (transpose_m B)"
  by (auto simp: multiply_def)

lemma rows_multiply_scalar:
  "row \<in> set (multiply_scalar A s) \<Longrightarrow> \<exists>row'\<in>set A. length row = length row'"
  by (auto simp: multiply_scalar_def)

lemma length_transpose_m_transpose_row:
  assumes "r \<noteq> []"
  shows "length (transpose_m (transpose_m [r])) = 1"
proof -
  have ne: "transpose_m [r] \<noteq> []"
    using assms by (simp add: transpose_m_row)
  have "hd (transpose_m [r]) = [r ! 0]"
    using assms by (simp add: transpose_m_row hd_map)
  then show ?thesis
    by (simp add: length_transpose_m [OF ne])
qed

lemma first_row_subtract:
  assumes "\<forall>row\<in>set Delta. length row = 1"
  shows "first_row (subtract_m [params] (transpose_m Delta)) = map2 (-) params (concat Delta)"
proof (cases "Delta = []")
  case True
  then show ?thesis by (simp add: transpose_m_def subtract_m_def first_row_def)
next
  case False
  then show ?thesis
    by (simp add: transpose_m_column [OF False assms] subtract_m_def first_row_def)
qed

lemma update_column:
  assumes "data_x data \<noteq> []"
  shows "\<forall>row\<in>set (multiply_scalar (multiply X (transpose_m (matrixFunction data ev))) g).
           length row = 1"
proof -
  have "length (transpose_m (transpose_m (matrixFunction data ev))) = 1"
    unfolding matrixFunction_def Let_def
    by (rule length_transpose_m_transpose_row) (simp add: assms)
  then show ?thesis
    by (auto dest!: rows_multiply_scalar rows_multiply)
qed

lemma update_empty:
  assumes "data_x data = []"
  shows "\<forall>row\<in>set (multiply_scalar (multiply X (transpose_m (matrixFunction data ev))) g).
           row = []"
proof -
  have "transpose_m (transpose_m (matrixFunction data ev)) = []"
    by (simp add: matrixFunction_def transpose_m_def assms)
  then show ?thesis
    by (auto simp: multiply_scalar_def multiply_def)
qed

lemma first_row_subtract_empty:
  assumes "\<forall>row\<in>set Delta. row = []"
  shows "first_row (subtract_m [params] (transpose_m Delta)) = map2 (-) params (concat Delta)"
proof -
  have "transpose_m Delta = []"
    using assms by (cases Delta) (simp_all add: transpose_m_def)
  moreover have "concat Delta = []"
    using assms by simp
  ultimately show ?thesis
    by (simp add: subtract_m_def first_row_def)
qed

text \<open>The result of \<open>step\<close>: the parameters minus the entries of the update, which is a
  column (for an empty dataset, a matrix whose rows are empty).\<close>

lemma step_as_column:
  "step math_inv data params d g f =
    (let evaluatedData = map (f params) (data_x data);
         J = gradientFunction data evaluatedData params g f;
         A = add_m (multiply_scalar (eye (length params)) (d * g * g))
                (multiply J (transpose_m J));
         Delta = multiply_scalar
                   (multiply (multiply (math_inv A) J)
                      (transpose_m (matrixFunction data evaluatedData))) g
     in map2 (-) params (concat Delta))"
proof -
  have ev: "map (\<lambda>i. f params (data_x data ! i)) [0..<length (data_x data)]
            = map (f params) (data_x data)"
    by (rule nth_equalityI) simp_all
  show ?thesis
  proof (cases "data_x data = []")
    case True
    show ?thesis
      unfolding step_def Let_def ev
      by (rule first_row_subtract_empty) (rule update_empty [OF True])
  next
    case False
    show ?thesis
      unfolding step_def Let_def ev
      by (rule first_row_subtract) (rule update_column [OF False])
  qed
qed

lemma multiply_scalar_commute: "multiply_scalar A s = scalar_multiply s A"
  by (simp add: multiply_scalar_def scalar_multiply_def times_jsnum_commute)

lemma matrixFunction_row:
  assumes "length (data_y data) = length (data_x data)" "length ev = length (data_x data)"
  shows "matrixFunction data ev = [map2 (-) (data_y data) ev]"
  unfolding matrixFunction_def Let_def
  by (simp, rule nth_equalityI) (simp_all add: assms nth_num_def)

text \<open>The step for one parameter and one sample, with the inverse of the examples.\<close>

lemma step_one_sample:
  "step inv_1x1 \<lparr>data_x = [x0], data_y = [y0]\<rparr> [p] d g f =
     [p - Fin 1 / (Fin 1 * (d * g * g) + (f [p] x0 - f [p + g] x0) * (f [p] x0 - f [p + g] x0))
            * (f [p] x0 - f [p + g] x0) * (y0 - f [p] x0) * g]"
  by (simp add: step_def gradientFunction_def matrixFunction_def eye_def multiply_scalar_def
      transpose_m_def multiply_def add_m_def subtract_m_def first_row_def inv_1x1_def nth_num_def)

text \<open>
  C4. For a dataset whose \<open>x\<close> and \<open>y\<close> have the same length, \<open>step\<close> returns
  \<open>params - gradientDifference \<cdot> inverse(I \<cdot> (damping \<cdot> gradientDifference\<^sup>2) + J \<cdot> J\<^sup>T)
  \<cdot> J \<cdot> r\<^sup>T\<close>, where \<open>J\<close> is the matrix of \<open>gradientFunction\<close> at the current
  parameters, \<open>r\<close> is the row vector \<open>y - evaluatedData\<close>, \<open>evaluatedData\<close> is the
  function built from the current parameters at every sample, and \<open>I\<close> is the identity of
  the size of the parameter vector.
\<close>

theorem step_formula:
  assumes "length (data_y data) = length (data_x data)"
  shows "step math_inv data params d g f = step_spec math_inv data params d g f"
  unfolding step_as_column step_spec_def Let_def
  by (simp add: matrixFunction_row [OF assms] multiply_scalar_commute times_jsnum_assoc)

theorem step_formula_witness:
  "length (data_y (sample 0 (- 8))) = length (data_x (sample 0 (- 8)))
   \<and> step_spec inv_1x1 (sample 0 (- 8)) [Fin 1] (Fin 3) (Fin 1) square = [Fin (- 5 / 4)]"
proof -
  have 1: "length (data_y (sample 0 (- 8))) = length (data_x (sample 0 (- 8)))"
    by (simp add: sample_def)
  have "step inv_1x1 (sample 0 (- 8)) [Fin 1] (Fin 3) (Fin 1) square = [Fin (- 5 / 4)]"
    by (simp add: sample_def step_one_sample square_def nth_num_def)
  then show ?thesis
    using step_formula [OF 1, of inv_1x1 "[Fin 1]" "Fin 3" "Fin 1" square] 1 by simp
qed

text \<open>
  C8. For a dataset that is not empty and an inverse that returns as many rows as its
  argument has, the vector that \<open>step\<close> returns has the length of the parameter vector.
\<close>

theorem step_length:
  assumes "data_x data \<noteq> []" and "\<And>A. length (math_inv A) = length A"
  shows "length (step math_inv data params d g f) = length params"
proof -
  have rows: "\<forall>row\<in>set Delta. length row = 1 \<Longrightarrow> length (concat Delta) = length Delta"
    for Delta :: matrix
    by (induction Delta) simp_all
  show ?thesis
    unfolding step_as_column Let_def
    by (simp add: rows [OF update_column [OF assms(1)]] assms(2))
qed

theorem step_length_witness:
  "data_x (sample 0 (- 8)) \<noteq> [] \<and> (\<forall>A. length (inv_1x1 A) = length A)
   \<and> length (step inv_1x1 (sample 0 (- 8)) [Fin 1] (Fin 3) (Fin 1) square) = length [Fin 1]"
proof -
  have 1: "data_x (sample 0 (- 8)) \<noteq> []" by (simp add: sample_def)
  have 2: "length (inv_1x1 A) = length A" for A by (simp add: inv_1x1_def)
  show ?thesis
    using step_length [OF 1 2, of "[Fin 1]" "Fin 3" "Fin 1" square] 1 2 by simp
qed

section \<open>The first loop\<close>

lemma phase1_spec_bracketing:
  "phase1_spec math_inv data f options e s t
     \<Longrightarrow> bracketing math_inv data f options e s = Some t"
proof (induction rule: phase1_spec.induct)
  case (exit_loop stepD s errD stepV errV)
  then show ?case by (subst bracketing.simps) (simp add: Let_def)
next
  case (accept_continue stepD s errD stepV errV s' t)
  then show ?case by (subst bracketing.simps) (simp add: Let_def)
next
  case (accept_stop stepD s errD stepV errV s')
  then show ?case by (subst bracketing.simps) (simp add: Let_def)
next
  case (increase_continue stepD s errD stepV errV s' t)
  then show ?case by (subst bracketing.simps) (simp add: Let_def)
next
  case (increase_stop stepD s errD stepV errV s')
  then show ?case by (subst bracketing.simps) (simp add: Let_def)
qed

lemma bracketing_phase1_spec:
  assumes "bracketing math_inv data f options e s = Some t"
  shows "phase1_spec math_inv data f options e s t"
proof (rule bracketing.raw_induct [where P = phase1_spec, OF _ assms])
  fix bracketing' mi d g and opts :: "vec config" and e and s t :: "vec bracket_state"
  assume IH: "\<And>mi d g opts e s t. bracketing' mi d g opts e s = Some t
                \<Longrightarrow> phase1_spec mi d g opts e s t"
  let ?stepD = "step mi d (par s) (damp s) (gradientDifference opts) g"
  let ?stepV = "step mi d (par s) (damp s / vfactor opts) (gradientDifference opts) g"
  let ?errD = "error d ?stepD g"
  let ?errV = "error d ?stepV g"
  let ?acc = "s\<lparr>damp := damp s / vfactor opts, par := ?stepV, count := count s + 1\<rparr>"
  let ?inc = "s\<lparr>damp := damp s * vfactor opts, count := count s + 1\<rparr>"
  assume eq: "(let stepD = step mi d (par s) (damp s) (gradientDifference opts) g;
          errD = error d stepD g;
          stepV = step mi d (par s) (damp s / vfactor opts) (gradientDifference opts) g;
          errV = error d stepV g
      in case if errD < e \<or> errV < e
              then if errV < errD
                   then Some (s\<lparr>damp := damp s / vfactor opts, par := stepV\<rparr>)
                   else None
              else Some (s\<lparr>damp := damp s * vfactor opts\<rparr>) of
         None \<Rightarrow> Some s
         | Some s1 \<Rightarrow>
             let s2 = s1\<lparr>count := count s1 + 1\<rparr>
             in if e < errD \<or> e < errV \<or> Fin (real (count s2)) < maxIterations opts
                then bracketing' mi d g opts e s2 else Some s2) = Some t"
  consider (exit) "?errD < e \<or> ?errV < e" "\<not> ?errV < ?errD"
    | (acc_c) "?errD < e \<or> ?errV < e" "?errV < ?errD"
        "e < ?errD \<or> e < ?errV \<or> Fin (real (count ?acc)) < maxIterations opts"
    | (acc_s) "?errD < e \<or> ?errV < e" "?errV < ?errD"
        "\<not> (e < ?errD \<or> e < ?errV \<or> Fin (real (count ?acc)) < maxIterations opts)"
    | (inc_c) "\<not> (?errD < e \<or> ?errV < e)"
        "e < ?errD \<or> e < ?errV \<or> Fin (real (count ?inc)) < maxIterations opts"
    | (inc_s) "\<not> (?errD < e \<or> ?errV < e)"
        "\<not> (e < ?errD \<or> e < ?errV \<or> Fin (real (count ?inc)) < maxIterations opts)"
    by blast
  then show "phase1_spec mi d g opts e s t"
  proof cases
    case exit
    then have "t = s" using eq by (simp add: Let_def)
    with exit show ?thesis
      by (simp add: phase1_spec.exit_loop [OF refl refl refl refl])
  next
    case acc_c
    then have "bracketing' mi d g opts e ?acc = Some t" using eq by (simp add: Let_def)
    then have "phase1_spec mi d g opts e ?acc t" by (rule IH)
    then show ?thesis
      by (rule phase1_spec.accept_continue [OF refl refl refl refl acc_c(1,2) refl acc_c(3)])
  next
    case acc_s
    then have "t = ?acc" using eq by (simp add: Let_def)
    then show ?thesis
      using phase1_spec.accept_stop [OF refl refl refl refl acc_s(1,2) refl acc_s(3)] by simp
  next
    case inc_c
    then have "bracketing' mi d g opts e ?inc = Some t" using eq by (simp add: Let_def)
    then have "phase1_spec mi d g opts e ?inc t" by (rule IH)
    then show ?thesis
      by (rule phase1_spec.increase_continue [OF refl refl refl refl inc_c(1) refl inc_c(2)])
  next
    case inc_s
    then have "t = ?inc" using eq by (simp add: Let_def)
    then show ?thesis
      using phase1_spec.increase_stop [OF refl refl refl refl inc_s(1) refl inc_s(2)] by simp
  qed
qed

text \<open>
  Two runs of the first loop, fitting \<open>p => x => p[0] * p[0]\<close> to the sample \<open>(0, -8)\<close> from
  the initial value 1, where \<open>err\<close> is 9. With damping 1, \<open>v = 3\<close> and \<open>maxIterations = 1\<close>
  the first two iterations find both candidates worse than \<open>err\<close> and raise the damping,
  the third leaves the loop from inside the body. With damping 9 and
  \<open>maxIterations = 100\<close> the first iteration leaves the loop from inside the body.
\<close>

lemma run_past_maxIterations:
  "bracketing inv_1x1 (sample 0 (- 8)) square (options_for 1 1 1 1 3)
     (error (sample 0 (- 8)) [Fin 1] square) \<lparr>damp = Fin 1, count = 0, par = [Fin 1]\<rparr>
   = Some \<lparr>damp = Fin 9, count = 2, par = [Fin 1]\<rparr>"
  unfolding sample_def options_for_def
  apply (subst bracketing.simps)
  apply (simp add: step_one_sample error_one_sample square_def nth_num_def Let_def)
  apply (subst bracketing.simps)
  apply (simp add: step_one_sample error_one_sample square_def nth_num_def Let_def)
  apply (subst bracketing.simps)
  apply (simp add: step_one_sample error_one_sample square_def nth_num_def Let_def)
  done

lemma run_before_maxIterations:
  "bracketing inv_1x1 (sample 0 (- 8)) square (options_for 9 1 1 100 3)
     (error (sample 0 (- 8)) [Fin 1] square) \<lparr>damp = Fin 9, count = 0, par = [Fin 1]\<rparr>
   = Some \<lparr>damp = Fin 9, count = 0, par = [Fin 1]\<rparr>"
  unfolding sample_def options_for_def
  apply (subst bracketing.simps)
  apply (simp add: step_one_sample error_one_sample square_def nth_num_def Let_def)
  done

text \<open>
  C3. The first loop does what the specification states for it: started in state \<open>s\<close> it
  is left in state \<open>t\<close> exactly when the relation \<open>phase1_spec\<close>, which follows the
  specification's words, holds between \<open>s\<close> and \<open>t\<close>. The loop can go on past
  \<open>maxIterations\<close> (in the first run it is left with \<open>count = 2\<close> although
  \<open>maxIterations = 1\<close>) and it can end before the budget is used (in the second run it is
  left with \<open>count = 0\<close> although \<open>maxIterations = 100\<close>).
\<close>

theorem bracketing_follows_specification:
  "((bracketing math_inv data f options e s = Some t)
      = phase1_spec math_inv data f options e s t)
   \<and> bracketing inv_1x1 (sample 0 (- 8)) square (options_for 1 1 1 1 3)
       (error (sample 0 (- 8)) [Fin 1] square) \<lparr>damp = Fin 1, count = 0, par = [Fin 1]\<rparr>
     = Some \<lparr>damp = Fin 9, count = 2, par = [Fin 1]\<rparr>
   \<and> bracketing inv_1x1 (sample 0 (- 8)) square (options_for 9 1 1 100 3)
       (error (sample 0 (- 8)) [Fin 1] square) \<lparr>damp = Fin 9, count = 0, par = [Fin 1]\<rparr>
     = Some \<lparr>damp = Fin 9, count = 0, par = [Fin 1]\<rparr>"
  using phase1_spec_bracketing bracketing_phase1_spec
    run_past_maxIterations run_before_maxIterations
  by blast

theorem bracketing_follows_specification_witness:
  "phase1_spec inv_1x1 (sample 0 (- 8)) square (options_for 1 1 1 1 3)
     (error (sample 0 (- 8)) [Fin 1] square) \<lparr>damp = Fin 1, count = 0, par = [Fin 1]\<rparr>
     \<lparr>damp = Fin 9, count = 2, par = [Fin 1]\<rparr>
   \<and> maxIterations (options_for 1 1 1 1 3) = Fin 1"
proof -
  have "phase1_spec inv_1x1 (sample 0 (- 8)) square (options_for 1 1 1 1 3)
     (error (sample 0 (- 8)) [Fin 1] square) \<lparr>damp = Fin 1, count = 0, par = [Fin 1]\<rparr>
     \<lparr>damp = Fin 9, count = 2, par = [Fin 1]\<rparr>"
    using bracketing_follows_specification
      [of inv_1x1 "sample 0 (- 8)" square "options_for 1 1 1 1 3"
        "error (sample 0 (- 8)) [Fin 1] square" "\<lparr>damp = Fin 1, count = 0, par = [Fin 1]\<rparr>"
        "\<lparr>damp = Fin 9, count = 2, par = [Fin 1]\<rparr>"]
    by blast
  moreover have "maxIterations (options_for 1 1 1 1 3) = Fin 1"
    by (simp add: options_for_def)
  ultimately show ?thesis by (rule conjI)
qed

section \<open>The second loop\<close>

lemma refining_refine:
  "refining math_inv data f options dmp s t \<Longrightarrow> refine math_inv data f options dmp s = Some t"
proof (induction rule: refining.induct)
  case (leave s)
  then show ?case by (subst refine.simps) auto
next
  case (break s p1)
  then show ?case by (subst refine.simps) (simp add: Let_def)
next
  case (again s p1 t)
  then show ?case by (subst refine.simps) (simp add: Let_def)
qed

lemma refine_refining:
  assumes "refine math_inv data f options dmp s = Some t"
  shows "refining math_inv data f options dmp s t"
proof (rule refine.raw_induct [where P = refining, OF _ assms])
  fix refine' mi d g and opts :: "vec config" and dm and s t :: "vec refine_state"
  assume IH: "\<And>mi d g opts dm s t. refine' mi d g opts dm s = Some t
                \<Longrightarrow> refining mi d g opts dm s t"
  let ?p1 = "step mi d (parameters s) dm (gradientDifference opts) g"
  assume eq: "(if Fin (real (iter s)) < maxIterations opts \<and> \<not> converged s
      then let parameters1 = step mi d (parameters s) dm (gradientDifference opts) g;
               err1 = error d parameters1 g;
               s1 = s \<lparr>parameters := parameters1, err := err1,
                    calls := calls s @ [(parameters s, dm, err1)]\<rparr>
           in if isNaN err1 then Some s1
              else refine' mi d g opts dm
                    (s1\<lparr>converged := err1 \<le> errorTolerance opts,
                          lastParams := parameters1, iter := iter s + 1\<rparr>)
      else Some s) = Some t"
  show "refining mi d g opts dm s t"
  proof (cases "Fin (real (iter s)) < maxIterations opts \<and> \<not> converged s")
    case False
    with eq show ?thesis by (auto intro: refining.leave)
  next
    case guard: True
    show ?thesis
    proof (cases "isNaN (error d ?p1 g)")
      case True
      with eq guard show ?thesis
        by (auto simp: Let_def intro: refining.break)
    next
      case False
      show ?thesis
      proof (rule refining.again [OF _ _ refl False])
        show "Fin (real (iter s)) < maxIterations opts" "\<not> converged s"
          using guard by simp_all
        show "refining mi d g opts dm
           (s\<lparr>parameters := ?p1, err := error d ?p1 g,
              calls := calls s @ [(parameters s, dm, error d ?p1 g)],
              converged := (error d ?p1 g \<le> errorTolerance opts),
              lastParams := ?p1, iter := iter s + 1\<rparr>) t"
          by (rule IH) (use eq guard False in \<open>simp add: Let_def\<close>)
      qed
    qed
  qed
qed

text \<open>What the second loop records: the calls it adds, how far \<open>i\<close> advances, and which
  call comes first.\<close>

lemma refining_calls:
  "refining math_inv data f options dmp s t \<Longrightarrow>
     \<exists>new. calls t = calls s @ new
       \<and> iter t = iter s + counted new
       \<and> length new \<le> counted new + 1
       \<and> (new \<noteq> [] \<longrightarrow>
            hd new = (parameters s, dmp,
              error data (step math_inv data (parameters s) dmp (gradientDifference options) f) f))"
proof (induction rule: refining.induct)
  case (leave s)
  then show ?case by (simp add: counted_def)
next
  case (break s p1)
  then show ?case by (simp add: counted_def)
next
  case (again s p1 t)
  then obtain new where new: "calls t = (calls s @ [(parameters s, dmp, error data p1 f)]) @ new"
    "iter t = (iter s + 1) + counted new" "length new \<le> counted new + 1"
    by auto
  let ?new = "(parameters s, dmp, error data p1 f) # new"
  have "calls t = calls s @ ?new" using new(1) by simp
  moreover have "counted ?new = counted new + 1"
    using again.hyps(4) by (simp add: counted_def)
  ultimately show ?case
    using new(2,3) again.hyps(3) by (intro exI [of _ ?new]) simp
qed

lemma refining_iter_bound:
  "refining math_inv data f options dmp s t \<Longrightarrow>
     iter t = iter s \<or> (iter s < iter t \<and> Fin (real (iter t - 1)) < maxIterations options)"
proof (induction rule: refining.induct)
  case (again s p1 t)
  then show ?case by auto
qed simp_all

lemma refining_lastParams:
  "refining math_inv data f options dmp s t \<Longrightarrow>
     (lastParams s = init \<and> iter s = 0) \<or> \<not> isNaN (error data (lastParams s) f) \<Longrightarrow>
     (lastParams t = init \<and> iter t = 0) \<or> \<not> isNaN (error data (lastParams t) f)"
  by (induction rule: refining.induct) simp_all

section \<open>Termination\<close>

lemma iteration_bound:
  assumes "maxIterations options \<noteq> PInf"
  shows "\<exists>bound. \<forall>k\<ge>bound. \<not> Fin (real k) < maxIterations options"
proof (cases "maxIterations options")
  case (Fin m)
  have "\<not> Fin (real k) < maxIterations options" if "nat \<lceil>m\<rceil> \<le> k" for k
  proof -
    have "m \<le> real (nat \<lceil>m\<rceil>)" by (rule real_nat_ceiling_ge)
    also have "\<dots> \<le> real k" using that by simp
    finally show ?thesis by (simp add: Fin)
  qed
  then show ?thesis by blast
qed (use assms in simp_all)

text \<open>The second loop ends when \<open>maxIterations\<close> is not \<open>Infinity\<close>.\<close>

lemma refine_terminates:
  assumes "maxIterations options \<noteq> PInf"
  shows "\<exists>t. refine math_inv data f options dmp s = Some t"
proof -
  obtain bound where stop: "\<And>k. bound \<le> k \<Longrightarrow> \<not> Fin (real k) < maxIterations options"
    using iteration_bound [OF assms] by blast
  have "\<exists>t. refining math_inv data f options dmp s t" if "bound - iter s = n" for n
    using that
  proof (induction n arbitrary: s)
    case 0
    then have "\<not> Fin (real (iter s)) < maxIterations options" by (intro stop) simp
    then show ?case by (auto intro: refining.leave)
  next
    case (Suc n)
    let ?p1 = "step math_inv data (parameters s) dmp (gradientDifference options) f"
    let ?s2 = "s\<lparr>parameters := ?p1, err := error data ?p1 f,
              calls := calls s @ [(parameters s, dmp, error data ?p1 f)],
              converged := (error data ?p1 f \<le> errorTolerance options),
              lastParams := ?p1, iter := iter s + 1\<rparr>"
    show ?case
    proof (cases "Fin (real (iter s)) < maxIterations options \<and> \<not> converged s")
      case False
      then show ?thesis by (auto intro: refining.leave)
    next
      case guard: True
      show ?thesis
      proof (cases "isNaN (error data ?p1 f)")
        case True
        then show ?thesis using guard by (blast intro: refining.break)
      next
        case False
        have "bound - iter ?s2 = n" using Suc.prems by simp
        then obtain t where "refining math_inv data f options dmp ?s2 t"
          using Suc.IH by blast
        then show ?thesis
          using guard False by (blast intro: refining.again)
      qed
    qed
  qed
  then show ?thesis by (blast intro: refining_refine)
qed

text \<open>The first loop ends when \<open>err\<close> is \<open>NaN\<close> and \<open>maxIterations\<close> is not \<open>Infinity\<close>:
  no comparison with \<open>err\<close> holds, so every iteration raises the damping and the loop goes
  on while \<open>count < maxIterations\<close>.\<close>

lemma bracketing_NaN_terminates:
  assumes "isNaN e" and "maxIterations options \<noteq> PInf"
  shows "\<exists>t. bracketing math_inv data f options e s = Some t"
proof -
  obtain bound where stop: "\<And>k. bound \<le> k \<Longrightarrow> \<not> Fin (real k) < maxIterations options"
    using iteration_bound [OF assms(2)] by blast
  have e: "e = NaN" using assms(1) by (simp add: isNaN_def)
  have stops: "phase1_spec math_inv data f options e s
                 (s\<lparr>damp := damp s * vfactor options, count := count s + 1\<rparr>)"
    if "\<not> Fin (real (count s + 1)) < maxIterations options" for s
    by (rule phase1_spec.increase_stop [OF refl refl refl refl _ refl])
       (use that in \<open>simp_all add: e\<close>)
  have continues: "phase1_spec math_inv data f options e s t"
    if "Fin (real (count s + 1)) < maxIterations options"
      and "phase1_spec math_inv data f options e
             (s\<lparr>damp := damp s * vfactor options, count := count s + 1\<rparr>) t" for s t
    by (rule phase1_spec.increase_continue [OF refl refl refl refl _ refl _ that(2)])
       (use that(1) in \<open>simp_all add: e\<close>)
  have "\<exists>t. phase1_spec math_inv data f options e s t" if "bound - Suc (count s) = n" for n
    using that
  proof (induction n arbitrary: s)
    case 0
    then have "\<not> Fin (real (count s + 1)) < maxIterations options" by (intro stop) simp
    then show ?case by (blast intro: stops)
  next
    case (Suc n)
    let ?s' = "s\<lparr>damp := damp s * vfactor options, count := count s + 1\<rparr>"
    show ?case
    proof (cases "Fin (real (count s + 1)) < maxIterations options")
      case False
      then show ?thesis by (blast intro: stops)
    next
      case True
      have "bound - Suc (count ?s') = n" using Suc.prems by simp
      then obtain t where "phase1_spec math_inv data f options e ?s' t"
        using Suc.IH by blast
      then show ?thesis
        using True by (blast intro: continues)
    qed
  qed
  then show ?thesis by (blast intro: phase1_spec_bracketing)
qed

section \<open>lma\<close>

lemma those_map_Some: "those (map Some xs) = Some xs"
  by (induction xs) simp_all

lemma numeric_options_supplied: "numeric_options (supplied options) = Some options"
  by (simp add: numeric_options_def supplied_def those_map_Some)

lemma numeric_options_given:
  "numeric_options (options_or_default arity (Some (supplied options))) = Some options"
  by (simp add: options_or_default_def numeric_options_supplied)

lemma lma_run_loops:
  assumes "lma_run math_inv arity data f opts = Some (Inr (b, s))"
    and "numeric_options (options_or_default arity opts) = Some options"
  shows "bracketing math_inv data f options (error data (initialValues options) f)
           \<lparr>damp = damping options, count = 0, par = initialValues options\<rparr> = Some b"
    and "refining math_inv data f options (damp b)
           \<lparr>parameters = initialValues options, err = error data (initialValues options) f,
            converged = (error data (initialValues options) f \<le> errorTolerance options),
            iter = 0, lastParams = initialValues options, calls = []\<rparr> s"
  using assms
  by (auto simp: lma_run_def Let_def split: option.splits intro: refine_refining)

lemma lma_of_run:
  "lma_run math_inv arity data f opts = Some (Inr (b, s))
     \<Longrightarrow> lma math_inv arity data f opts = Some (Inr (lma_result data f s))"
  by (simp add: lma_def)

text \<open>
  The slots of the default \<open>initialValues\<close> are unset: \<open>map(() => 1)\<close> sets none of them.
  So a call that passes no options object, with a function that declares an argument, ends
  in the exception.
\<close>

lemma default_initialValues_unset:
  "initialValues (default_options arity) = replicate arity None"
  by (simp add: default_options_def Array_map_def Array_of_length_def)

lemma those_replicate_None: "0 < n \<Longrightarrow> those (replicate n None) = None"
  by (cases n) simp_all

lemma lma_without_options:
  assumes "0 < arity"
  shows "lma math_inv arity data f None = Some (Inl TypeError)"
  using assms
  by (simp add: lma_def lma_run_def options_or_default_def numeric_options_def
      default_initialValues_unset those_replicate_None)

text \<open>
  Three fits of one parameter to one sample, with \<open>maxIterations = 1\<close>.
  \<^item> \<open>p => x => p[0]\<close> to \<open>(0, 0)\<close> from 1, damping 1, \<open>gradientDifference = 1\<close>,
    \<open>v = 2\<close>: the first loop accepts \<open>stepV = [1/3]\<close> with damping \<open>1/2\<close>; the second
    loop makes one step, from \<open>[1]\<close>.
  \<^item> \<open>p => x => x / p[0]\<close> to \<open>(0, 1)\<close> from 0: the error at the initial value is \<open>NaN\<close>;
    the only step of the second loop gives \<open>NaN\<close>.
  \<^item> \<open>p => x => x / (p[0] - 1)\<close> to \<open>(0, 1)\<close> from 0 with \<open>gradientDifference = 1\<close>: the
    error at the initial value is 1; the only step of the second loop gives \<open>NaN\<close>.
\<close>

lemma run_constant:
  "lma_run inv_1x1 1 (sample 0 0) constant_model (Some (supplied (options_for 1 1 1 1 2))) =
     Some (Inr (\<lparr>damp = Fin (1 / 2), count = 1, par = [Fin (1 / 3)]\<rparr>,
           \<lparr>parameters = [Fin (1 / 3)], err = Fin (1 / 3), converged = False, iter = 1,
            lastParams = [Fin (1 / 3)], calls = [([Fin 1], Fin (1 / 2), Fin (1 / 3))]\<rparr>))"
  unfolding lma_run_def numeric_options_given option.case sample_def options_for_def
  apply (subst bracketing.simps)
  apply (simp add: step_one_sample error_one_sample constant_model_def nth_num_def Let_def)
  apply (subst refine.simps)
  apply (simp add: step_one_sample error_one_sample constant_model_def nth_num_def Let_def
      isNaN_def)
  apply (subst refine.simps)
  apply (simp add: step_one_sample error_one_sample constant_model_def nth_num_def Let_def
      isNaN_def)
  done

lemma run_ratio:
  "lma_run inv_1x1 1 (sample 0 1) ratio (Some (supplied (options_for 0 0.1 0 1 1.5))) =
     Some (Inr (\<lparr>damp = Fin 0, count = 1, par = [Fin 0]\<rparr>,
           \<lparr>parameters = [NaN], err = NaN, converged = False, iter = 0,
            lastParams = [Fin 0], calls = [([Fin 0], Fin 0, NaN)]\<rparr>))"
  unfolding lma_run_def numeric_options_given option.case sample_def options_for_def
  apply (subst bracketing.simps)
  apply (simp add: step_one_sample error_one_sample ratio_def nth_num_def Let_def inf_of_def)
  apply (subst refine.simps)
  apply (simp add: step_one_sample error_one_sample ratio_def nth_num_def Let_def inf_of_def
      isNaN_def)
  done

lemma run_pole:
  "lma_run inv_1x1 1 (sample 0 1) pole (Some (supplied (options_for 0 1 0 1 1.5))) =
     Some (Inr (\<lparr>damp = Fin 0, count = 1, par = [Fin 0]\<rparr>,
           \<lparr>parameters = [NaN], err = NaN, converged = False, iter = 0,
            lastParams = [Fin 0], calls = [([Fin 0], Fin 0, NaN)]\<rparr>))"
  unfolding lma_run_def numeric_options_given option.case sample_def options_for_def
  apply (subst bracketing.simps)
  apply (simp add: step_one_sample error_one_sample pole_def nth_num_def Let_def inf_of_def)
  apply (subst refine.simps)
  apply (simp add: step_one_sample error_one_sample pole_def nth_num_def Let_def inf_of_def
      isNaN_def)
  done

text \<open>
  C1, amended. The second loop starts from the initial values and from the damping that the
  first loop fixed: when a fit returns and the second loop has called \<open>step\<close>, the first of
  these calls received the vector \<open>initialValues\<close> (the variable \<open>parameters\<close>, which the
  first loop does not change) and the damping \<open>damp\<close> with which the first loop was left.
  The vector \<open>par\<close> with which the first loop was left is not passed on.
\<close>

theorem refinement_starts_from_initial_values:
  assumes "lma_run math_inv arity data f opts = Some (Inr (b, s))"
    and "numeric_options (options_or_default arity opts) = Some options"
    and "calls s \<noteq> []"
  shows "bracketing math_inv data f options (error data (initialValues options) f)
           \<lparr>damp = damping options, count = 0, par = initialValues options\<rparr> = Some b
    \<and> hd (calls s) =
        (initialValues options, damp b,
         error data
           (step math_inv data (initialValues options) (damp b) (gradientDifference options) f)
           f)"
  using lma_run_loops(1) [OF assms(1,2)] refining_calls [OF lma_run_loops(2) [OF assms(1,2)]]
    assms(3)
  by auto

theorem refinement_starts_from_initial_values_witness:
  "lma_run inv_1x1 1 (sample 0 0) constant_model (Some (supplied (options_for 1 1 1 1 2))) =
     Some (Inr (\<lparr>damp = Fin (1 / 2), count = 1, par = [Fin (1 / 3)]\<rparr>,
           \<lparr>parameters = [Fin (1 / 3)], err = Fin (1 / 3), converged = False, iter = 1,
            lastParams = [Fin (1 / 3)], calls = [([Fin 1], Fin (1 / 2), Fin (1 / 3))]\<rparr>))
   \<and> numeric_options (options_or_default 1 (Some (supplied (options_for 1 1 1 1 2)))) = Some (options_for 1 1 1 1 2)
   \<and> [([Fin 1], Fin (1 / 2), Fin (1 / 3))] \<noteq> []
   \<and> hd [([Fin 1], Fin (1 / 2), Fin (1 / 3))] =
        (initialValues (options_for 1 1 1 1 2), Fin (1 / 2),
         error (sample 0 0)
           (step inv_1x1 (sample 0 0) (initialValues (options_for 1 1 1 1 2)) (Fin (1 / 2))
              (gradientDifference (options_for 1 1 1 1 2)) constant_model)
           constant_model)"
proof -
  have o: "numeric_options (options_or_default 1 (Some (supplied (options_for 1 1 1 1 2)))) = Some (options_for 1 1 1 1 2)"
    by (rule numeric_options_given)
  show ?thesis
    using refinement_starts_from_initial_values [OF run_constant o] run_constant o by simp
qed

text \<open>The claim as it was stated fails: in the first fit the first loop is left with
  \<open>par = [1/3]\<close>, and the first call of \<open>step\<close> in the second loop receives \<open>[1]\<close>.\<close>

theorem refinement_does_not_start_from_par:
  "lma_run inv_1x1 1 (sample 0 0) constant_model (Some (supplied (options_for 1 1 1 1 2))) =
     Some (Inr (\<lparr>damp = Fin (1 / 2), count = 1, par = [Fin (1 / 3)]\<rparr>,
           \<lparr>parameters = [Fin (1 / 3)], err = Fin (1 / 3), converged = False, iter = 1,
            lastParams = [Fin (1 / 3)], calls = [([Fin 1], Fin (1 / 2), Fin (1 / 3))]\<rparr>))
   \<and> fst (hd [([Fin 1], Fin (1 / 2), Fin (1 / 3))])
       \<noteq> par \<lparr>damp = Fin (1 / 2), count = 1, par = [Fin (1 / 3)]\<rparr>"
  using run_constant by simp

text \<open>
  C2, amended. When the error with which the second loop is left is \<open>NaN\<close>, the returned
  \<open>parameterValues\<close> is \<open>lastParams\<close> and the returned \<open>parameterError\<close> is \<open>error\<close> at
  \<open>lastParams\<close>. \<open>lastParams\<close> is the initial values, with no iteration counted, or a
  vector whose error is not \<open>NaN\<close>. So the returned \<open>parameterError\<close> is \<open>NaN\<close> only
  if the error at the initial values is \<open>NaN\<close>, and then \<open>parameterValues\<close> is the initial
  values and \<open>iterations\<close> is 0. When the error at the initial values is \<open>NaN\<close> and
  \<open>maxIterations\<close> is not \<open>Infinity\<close>, the fit returns.
\<close>

theorem NaN_recovery:
  assumes "numeric_options (options_or_default arity opts) = Some options"
  shows "(lma_run math_inv arity data f opts = Some (Inr (b, s)) \<longrightarrow>
            lma math_inv arity data f opts = Some (Inr (lma_result data f s))
          \<and> (isNaN (err s) \<longrightarrow>
                parameterValues (lma_result data f s) = lastParams s
              \<and> parameterError (lma_result data f s) = error data (lastParams s) f)
          \<and> (lastParams s = initialValues options \<and> iter s = 0
              \<or> \<not> isNaN (error data (lastParams s) f))
          \<and> (isNaN (parameterError (lma_result data f s)) \<longrightarrow>
                parameterValues (lma_result data f s) = initialValues options
              \<and> isNaN (error data (initialValues options) f)
              \<and> iterations (lma_result data f s) = 0))
       \<and> (isNaN (error data (initialValues options) f) \<and> maxIterations options \<noteq> PInf \<longrightarrow>
            (\<exists>r. lma math_inv arity data f opts = Some (Inr r)))"
proof (intro conjI impI)
  assume run: "lma_run math_inv arity data f opts = Some (Inr (b, s))"
  show "lma math_inv arity data f opts = Some (Inr (lma_result data f s))"
    using run by (rule lma_of_run)
  show last: "lastParams s = initialValues options \<and> iter s = 0
      \<or> \<not> isNaN (error data (lastParams s) f)"
    using refining_lastParams [OF lma_run_loops(2) [OF run assms], of "initialValues options"]
    by simp
  {
    assume "isNaN (err s)"
    then show "parameterValues (lma_result data f s) = lastParams s"
      and "parameterError (lma_result data f s) = error data (lastParams s) f"
      by (simp_all add: lma_result_def)
  }
  {
    assume nan: "isNaN (parameterError (lma_result data f s))"
    then have "isNaN (err s)" "isNaN (error data (lastParams s) f)"
      by (auto simp: lma_result_def split: if_splits)
    with last show "parameterValues (lma_result data f s) = initialValues options"
      and "isNaN (error data (initialValues options) f)"
      and "iterations (lma_result data f s) = 0"
      by (auto simp: lma_result_def)
  }
next
  assume a: "isNaN (error data (initialValues options) f) \<and> maxIterations options \<noteq> PInf"
  obtain t where t: "bracketing math_inv data f options (error data (initialValues options) f)
           \<lparr>damp = damping options, count = 0, par = initialValues options\<rparr> = Some t"
    using bracketing_NaN_terminates a by blast
  obtain u where "refine math_inv data f options (damp t)
           \<lparr>parameters = initialValues options, err = error data (initialValues options) f,
            converged = (error data (initialValues options) f \<le> errorTolerance options),
            iter = 0, lastParams = initialValues options, calls = []\<rparr> = Some u"
    using refine_terminates a by blast
  with t show "\<exists>r. lma math_inv arity data f opts = Some (Inr r)"
    by (simp add: lma_def lma_run_def Let_def assms)
qed

theorem NaN_recovery_witness:
  "numeric_options (options_or_default 1 (Some (supplied (options_for 0 0.1 0 1 1.5)))) = Some (options_for 0 0.1 0 1 1.5)
   \<and> lma_run inv_1x1 1 (sample 0 1) ratio (Some (supplied (options_for 0 0.1 0 1 1.5))) =
       Some (Inr (\<lparr>damp = Fin 0, count = 1, par = [Fin 0]\<rparr>,
             \<lparr>parameters = [NaN], err = NaN, converged = False, iter = 0,
              lastParams = [Fin 0], calls = [([Fin 0], Fin 0, NaN)]\<rparr>))
   \<and> isNaN (error (sample 0 1) (initialValues (options_for 0 0.1 0 1 1.5)) ratio)
   \<and> maxIterations (options_for 0 0.1 0 1 1.5) \<noteq> PInf
   \<and> (\<exists>r. lma inv_1x1 1 (sample 0 1) ratio (Some (supplied (options_for 0 0.1 0 1 1.5))) = Some (Inr r))
   \<and> isNaN (parameterError (lma_result (sample 0 1) ratio
         \<lparr>parameters = [NaN], err = NaN, converged = False, iter = 0,
          lastParams = [Fin 0], calls = [([Fin 0], Fin 0, NaN)]\<rparr>))
   \<and> parameterValues (lma_result (sample 0 1) ratio
         \<lparr>parameters = [NaN], err = NaN, converged = False, iter = 0,
          lastParams = [Fin 0], calls = [([Fin 0], Fin 0, NaN)]\<rparr>)
       = initialValues (options_for 0 0.1 0 1 1.5)
   \<and> iterations (lma_result (sample 0 1) ratio
         \<lparr>parameters = [NaN], err = NaN, converged = False, iter = 0,
          lastParams = [Fin 0], calls = [([Fin 0], Fin 0, NaN)]\<rparr>) = 0"
proof -
  let ?o = "options_for 0 0.1 0 1 1.5"
  let ?s = "\<lparr>parameters = [NaN], err = NaN, converged = False, iter = 0,
          lastParams = [Fin 0], calls = [([Fin 0], Fin 0, NaN)]\<rparr> :: vec refine_state"
  have o: "numeric_options (options_or_default 1 (Some (supplied ?o))) = Some ?o"
    by (rule numeric_options_given)
  have n: "isNaN (error (sample 0 1) (initialValues ?o) ratio)"
    by (simp add: options_for_def sample_def error_one_sample ratio_def nth_num_def inf_of_def
        isNaN_def)
  have m: "maxIterations ?o \<noteq> PInf"
    by (simp add: options_for_def)
  have p: "isNaN (parameterError (lma_result (sample 0 1) ratio ?s))"
    using n by (simp add: lma_result_def options_for_def isNaN_def)
  note w = NaN_recovery [OF o, of inv_1x1 "sample 0 1" ratio _ ?s]
  have "\<exists>r. lma inv_1x1 1 (sample 0 1) ratio (Some (supplied ?o)) = Some (Inr r)"
    using w n m by blast
  moreover have "parameterValues (lma_result (sample 0 1) ratio ?s) = initialValues ?o"
    and "iterations (lma_result (sample 0 1) ratio ?s) = 0"
    using w run_ratio p by blast+
  ultimately show ?thesis
    using o n m p run_ratio by blast
qed

text \<open>The claim as it was stated fails: in the second fit the function is \<open>NaN\<close> at the
  initial value, and the returned \<open>parameterError\<close> is \<open>NaN\<close>.\<close>

theorem NaN_surfaces_as_parameterError:
  "lma inv_1x1 1 (sample 0 1) ratio (Some (supplied (options_for 0 0.1 0 1 1.5))) =
     Some (Inr \<lparr>iterations = 0, parameterError = NaN, parameterValues = [Fin 0]\<rparr>)"
  using lma_of_run [OF run_ratio]
  by (simp add: lma_result_def sample_def error_one_sample ratio_def nth_num_def inf_of_def
      isNaN_def)

text \<open>
  C7, amended. The returned \<open>iterations\<close> is the number of steps of the second loop (a
  call of \<open>step\<close> followed by a call of \<open>error\<close>) whose error was not \<open>NaN\<close>. At most
  one step is not counted: the step that gives \<open>NaN\<close> and ends the loop. Every counted
  step started with \<open>i < maxIterations\<close>, so \<open>iterations\<close> is 0 or
  \<open>iterations - 1 < maxIterations\<close>; when \<open>maxIterations\<close> is a natural number,
  \<open>iterations\<close> does not exceed it.
\<close>

theorem iterations_counts_completed_steps:
  assumes "lma_run math_inv arity data f opts = Some (Inr (b, s))"
    and "numeric_options (options_or_default arity opts) = Some options"
  shows "lma math_inv arity data f opts = Some (Inr (lma_result data f s))
    \<and> iterations (lma_result data f s) = counted (calls s)
    \<and> length (calls s) \<le> iterations (lma_result data f s) + 1
    \<and> (iterations (lma_result data f s) = 0
        \<or> Fin (real (iterations (lma_result data f s) - 1)) < maxIterations options)
    \<and> (\<forall>k. maxIterations options = Fin (real k) \<longrightarrow> iterations (lma_result data f s) \<le> k)"
proof -
  note r = lma_run_loops(2) [OF assms]
  have i: "iterations (lma_result data f s) = iter s"
    by (simp add: lma_result_def)
  have c: "iter s = counted (calls s)" "length (calls s) \<le> iter s + 1"
    using refining_calls [OF r] by auto
  have b: "iter s = 0 \<or> Fin (real (iter s - 1)) < maxIterations options"
    using refining_iter_bound [OF r] by auto
  have "iter s \<le> k" if "maxIterations options = Fin (real k)" for k
    using b that by auto
  then show ?thesis
    using lma_of_run [OF assms(1)] b c by (simp add: i)
qed

theorem iterations_counts_completed_steps_witness:
  "lma_run inv_1x1 1 (sample 0 0) constant_model (Some (supplied (options_for 1 1 1 1 2))) =
     Some (Inr (\<lparr>damp = Fin (1 / 2), count = 1, par = [Fin (1 / 3)]\<rparr>,
           \<lparr>parameters = [Fin (1 / 3)], err = Fin (1 / 3), converged = False, iter = 1,
            lastParams = [Fin (1 / 3)], calls = [([Fin 1], Fin (1 / 2), Fin (1 / 3))]\<rparr>))
   \<and> numeric_options (options_or_default 1 (Some (supplied (options_for 1 1 1 1 2)))) = Some (options_for 1 1 1 1 2)
   \<and> maxIterations (options_for 1 1 1 1 2) = Fin (real 1)
   \<and> lma inv_1x1 1 (sample 0 0) constant_model (Some (supplied (options_for 1 1 1 1 2))) =
       Some (Inr \<lparr>iterations = 1, parameterError = Fin (1 / 3), parameterValues = [Fin (1 / 3)]\<rparr>)
   \<and> counted [([Fin 1], Fin (1 / 2), Fin (1 / 3))] = (1::nat)"
proof -
  let ?o = "options_for 1 1 1 1 2"
  have o: "numeric_options (options_or_default 1 (Some (supplied ?o))) = Some ?o"
    by (rule numeric_options_given)
  have m: "maxIterations ?o = Fin (real 1)"
    by (simp add: options_for_def)
  let ?s = "\<lparr>parameters = [Fin (1 / 3)], err = Fin (1 / 3), converged = False, iter = 1,
            lastParams = [Fin (1 / 3)], calls = [([Fin 1], Fin (1 / 2), Fin (1 / 3))]\<rparr>"
  note w = iterations_counts_completed_steps [OF run_constant o]
  have r: "lma_result (sample 0 0) constant_model ?s =
      \<lparr>iterations = 1, parameterError = Fin (1 / 3), parameterValues = [Fin (1 / 3)]\<rparr>"
    by (simp add: lma_result_def isNaN_def)
  have "iterations (lma_result (sample 0 0) constant_model ?s) = counted (calls ?s)"
    using w by blast
  then have "counted [([Fin 1], Fin (1 / 2), Fin (1 / 3))] = (1::nat)"
    unfolding r by simp
  moreover have "lma inv_1x1 1 (sample 0 0) constant_model (Some (supplied ?o)) =
       Some (Inr \<lparr>iterations = 1, parameterError = Fin (1 / 3), parameterValues = [Fin (1 / 3)]\<rparr>)"
    using w unfolding r by blast
  ultimately show ?thesis
    using run_constant o m by blast
qed

text \<open>The claim as it was stated fails: in the third fit the second loop makes one step,
  which gives \<open>NaN\<close>, and the returned \<open>iterations\<close> is 0.\<close>

theorem NaN_step_is_not_counted:
  "lma inv_1x1 1 (sample 0 1) pole (Some (supplied (options_for 0 1 0 1 1.5))) =
     Some (Inr \<lparr>iterations = 0, parameterError = Fin 1, parameterValues = [Fin 0]\<rparr>)
   \<and> map_option (map_sum id (\<lambda>(b, s). calls s))
         (lma_run inv_1x1 1 (sample 0 1) pole (Some (supplied (options_for 0 1 0 1 1.5))))
       = Some (Inr [([Fin 0], Fin 0, NaN)])"
  using lma_of_run [OF run_pole] run_pole
  by (simp add: lma_result_def sample_def error_one_sample pole_def nth_num_def isNaN_def)


section \<open>What a call leaves unchanged\<close>

lemma unchanged_refl [simp]: "unchanged h h"
  by (simp add: unchanged_def)

lemma unchanged_trans: "unchanged h0 h1 \<Longrightarrow> unchanged h1 h2 \<Longrightarrow> unchanged h0 h2"
  by (auto simp: unchanged_def)

lemma unchanged_new_array: "unchanged h0 h \<Longrightarrow> unchanged h0 (fst (new_array h a))"
  by (auto simp: unchanged_def new_array_def nth_append)

lemma unchanged_set_elem:
  "unchanged h0 h \<Longrightarrow> length h0 \<le> r \<Longrightarrow> unchanged h0 (set_elem h r k v)"
  by (auto simp: unchanged_def set_elem_def)

lemma length_set_elem [simp]: "length (set_elem h r k v) = length h"
  by (simp add: set_elem_def)

text \<open>A loop that assigns to the elements of one array, allocated after \<open>h0\<close>.\<close>

lemma fold_set_elem:
  "unchanged h0 h \<Longrightarrow> length h0 \<le> r \<Longrightarrow>
   unchanged h0 (fold (\<lambda>k hp. set_elem hp r k (g hp k)) ks h)"
  by (induction ks arbitrary: h) (simp_all add: unchanged_set_elem)

lemma fold_invariant:
  "(\<And>x s. P s \<Longrightarrow> P (F x s)) \<Longrightarrow> P s \<Longrightarrow> P (fold F xs s)"
  by (induction xs arbitrary: s) simp_all

lemma matrixFunction_h_frame:
  "unchanged h0 h \<Longrightarrow> unchanged h0 (fst (matrixFunction_h h data ev))"
  unfolding matrixFunction_h_def Let_def split_beta fst_conv
  by (intro fold_set_elem unchanged_new_array) (auto simp: new_array_def unchanged_def)

lemma gradientFunction_h_frame:
  assumes "unchanged h0 h"
  shows "unchanged h0 (fst (gradientFunction_h h data ev params g f))"
  unfolding gradientFunction_h_def Let_def split_beta fst_conv
  apply (rule fold_invariant [where P = "\<lambda>s. unchanged h0 (fst s)"])
  subgoal for param s
    unfolding fst_conv
    by (intro fold_set_elem unchanged_set_elem unchanged_new_array)
       (auto simp: new_array_def unchanged_def)
  subgoal using assms by simp
  done

lemma step_h_frame:
  assumes "unchanged h0 h"
  shows "unchanged h0 (fst (step_h math_inv h data params d g f))"
  unfolding step_h_def Let_def split_beta
  by (intro unchanged_new_array matrixFunction_h_frame gradientFunction_h_frame fold_set_elem)
     (use assms in \<open>auto simp: new_array_def unchanged_def nth_append\<close>)

lemma bracketing_h_frame:
  assumes "bracketing_h math_inv data f options e hs = Some hs'"
  shows "unchanged (fst hs) (fst hs')"
proof (rule bracketing_h.raw_induct
    [where P = "\<lambda>mi d g opts e hs hs'. unchanged (fst hs) (fst hs')", OF _ assms])
  fix bracketing' :: "(matrix \<Rightarrow> matrix) \<Rightarrow> address dataset \<Rightarrow> model \<Rightarrow> address config
      \<Rightarrow> jsnum \<Rightarrow> store \<times> address bracket_state \<Rightarrow> (store \<times> address bracket_state) option"
    and mi :: "matrix \<Rightarrow> matrix" and d :: "address dataset" and g :: model
    and opts :: "address config" and e :: jsnum
    and hs hs' :: "store \<times> address bracket_state"
  assume IH: "\<And>mi d g opts e hs hs'. bracketing' mi d g opts e hs = Some hs'
                \<Longrightarrow> unchanged (fst hs) (fst hs')"
  obtain h s where hs: "hs = (h, s)" by (cases hs)
  obtain h1 stepD where 1:
    "step_h mi h d (par s) (damp s) (gradientDifference opts) g = (h1, stepD)"
    by (cases "step_h mi h d (par s) (damp s) (gradientDifference opts) g")
  obtain h2 stepV where 2:
    "step_h mi h1 d (par s) (damp s / vfactor opts) (gradientDifference opts) g = (h2, stepV)"
    by (cases "step_h mi h1 d (par s) (damp s / vfactor opts) (gradientDifference opts) g")
  have "unchanged h h1"
    using step_h_frame [of h h mi d "par s" "damp s" "gradientDifference opts" g]
    by (simp add: 1)
  moreover have "unchanged h1 h2"
    using step_h_frame
      [of h1 h1 mi d "par s" "damp s / vfactor opts" "gradientDifference opts" g]
    by (simp add: 2)
  ultimately have p: "unchanged h h2" by (rule unchanged_trans)
  assume "(let (h, s) = hs;
          (h1, stepD) = step_h mi h d (par s) (damp s) (gradientDifference opts) g;
          errD = error_h h1 d stepD g;
          (h2, stepV) = step_h mi h1 d (par s) (damp s / vfactor opts)
                          (gradientDifference opts) g;
          errV = error_h h2 d stepV g
      in case (if e > errD \<or> e > errV
               then (if errD > errV
                     then Some (s\<lparr>damp := damp s / vfactor opts, par := stepV\<rparr>)
                     else None)
               else Some (s\<lparr>damp := damp s * vfactor opts\<rparr>)) of
           None \<Rightarrow> Some (h2, s)
         | Some s1 \<Rightarrow>
             (let s2 = s1\<lparr>count := count s1 + 1\<rparr>
              in if e < errD \<or> e < errV \<or> Fin (real (count s2)) < maxIterations opts
                 then bracketing' mi d g opts e (h2, s2)
                 else Some (h2, s2))) = Some hs'"
  then have "fst hs' = h2 \<or> (\<exists>s2. bracketing' mi d g opts e (h2, s2) = Some hs')"
    by (auto simp: hs 1 2 Let_def split: option.splits if_splits)
  then show "unchanged (fst hs) (fst hs')"
    using p by (auto simp: hs intro: unchanged_trans dest!: IH)
qed

lemma refine_h_frame:
  assumes "refine_h math_inv data f options dmp hs = Some hs'"
  shows "unchanged (fst hs) (fst hs')"
proof (rule refine_h.raw_induct
    [where P = "\<lambda>mi d g opts dm hs hs'. unchanged (fst hs) (fst hs')", OF _ assms])
  fix refine' :: "(matrix \<Rightarrow> matrix) \<Rightarrow> address dataset \<Rightarrow> model \<Rightarrow> address config
      \<Rightarrow> jsnum \<Rightarrow> store \<times> address refine_state \<Rightarrow> (store \<times> address refine_state) option"
    and mi :: "matrix \<Rightarrow> matrix" and d :: "address dataset" and g :: model
    and opts :: "address config" and dm :: jsnum
    and hs hs' :: "store \<times> address refine_state"
  assume IH: "\<And>mi d g opts dm hs hs'. refine' mi d g opts dm hs = Some hs'
                \<Longrightarrow> unchanged (fst hs) (fst hs')"
  obtain h s where hs: "hs = (h, s)" by (cases hs)
  obtain h1 p1 where 1:
    "step_h mi h d (parameters s) dm (gradientDifference opts) g = (h1, p1)"
    by (cases "step_h mi h d (parameters s) dm (gradientDifference opts) g")
  have p: "unchanged h h1"
    using step_h_frame [of h h mi d "parameters s" dm "gradientDifference opts" g]
    by (simp add: 1)
  assume "(let (h, s) = hs
      in if Fin (real (iter s)) < maxIterations opts \<and> \<not> converged s
         then (let (h1, parameters1) =
                     step_h mi h d (parameters s) dm (gradientDifference opts) g;
                   err1 = error_h h1 d parameters1 g;
                   s1 = s\<lparr>parameters := parameters1, err := err1,
                          calls := calls s @ [(parameters s, dm, err1)]\<rparr>
               in if isNaN err1 then Some (h1, s1)
                  else refine' mi d g opts dm
                         (h1, s1\<lparr>converged := (err1 \<le> errorTolerance opts),
                                 lastParams := parameters1,
                                 iter := iter s + 1\<rparr>))
         else Some hs) = Some hs'"
  then have "hs' = hs \<or> fst hs' = h1 \<or> (\<exists>s2. refine' mi d g opts dm (h1, s2) = Some hs')"
    by (auto simp: hs 1 Let_def split: if_splits)
  then show "unchanged (fst hs) (fst hs')"
    using p by (auto simp: hs intro: unchanged_trans dest!: IH)
qed

lemma options_or_default_h_frame:
  "options_or_default_h h arity opts = Some (h0, options) \<Longrightarrow> unchanged h h0"
  by (cases opts)
    (auto simp: options_or_default_h_def new_array_def Let_def unchanged_def nth_append
      split: option.splits)

lemma lma_h_frame:
  assumes "lma_h math_inv arity h data f opts = Some (Inr (h', r))"
  shows "unchanged h h'"
proof -
  from assms obtain h0 options where o: "options_or_default_h h arity opts = Some (h0, options)"
    by (auto simp: lma_h_def split: option.splits)
  have p0: "unchanged h h0"
    using options_or_default_h_frame [OF o] .
  from assms obtain h1 b h2 s where
    b: "bracketing_h math_inv data f options (error_h h0 data (initialValues options) f)
          (h0, \<lparr>damp = damping options, count = 0, par = initialValues options\<rparr>)
        = Some (h1, b)"
    and r: "refine_h math_inv data f options (damp b)
          (h1, \<lparr>parameters = initialValues options,
                 err = error_h h0 data (initialValues options) f,
                 converged =
                   (error_h h0 data (initialValues options) f \<le> errorTolerance options),
                 iter = 0, lastParams = initialValues options, calls = []\<rparr>) = Some (h2, s)"
    and h': "h' = h2"
    by (auto simp: lma_h_def o Let_def split: option.splits)
  have "unchanged h0 h1" using bracketing_h_frame [OF b] by simp
  moreover have "unchanged h1 h2" using refine_h_frame [OF r] by simp
  ultimately show ?thesis using p0 h' by (auto intro: unchanged_trans)
qed
section \<open>The store model returns what the functional model returns\<close>

lemma error_h_error: "error_h h data params f = error (values_of h data) (h ! params) f"
  by (simp add: error_h_def error_def values_of_def)

text \<open>A loop that assigns the elements 0 to m - 1 of an array of length m.\<close>

lemma fold_fill_upto:
  assumes r: "r < length h" and len: "length (h ! r) = m"
    and G: "\<And>hp k. k < m \<Longrightarrow> length hp = length h
               \<Longrightarrow> (\<forall>a<length h. a \<noteq> r \<longrightarrow> hp ! a = h ! a) \<Longrightarrow> g hp k = G k"
  shows "n \<le> m \<Longrightarrow>
     fold (\<lambda>k hp. set_elem hp r k (g hp k)) [0..<n] h
       = h[r := map G [0..<n] @ drop n (h ! r)]"
proof (induction n)
  case 0
  then show ?case by simp
next
  case (Suc n)
  let ?hn = "h[r := map G [0..<n] @ drop n (h ! r)]"
  have n: "n < m" using Suc.prems by simp
  have "g ?hn n = G n"
    by (rule G [OF n]) (simp_all)
  moreover have "drop n (h ! r) = (h ! r) ! n # drop (Suc n) (h ! r)"
    using n len by (simp add: Cons_nth_drop_Suc)
  ultimately show ?case
    using Suc n r len
    by (simp add: set_elem_def list_update_append nth_append)
qed

lemma fold_fill:
  assumes "r < length h" and "length (h ! r) = m"
    and "\<And>hp k. k < m \<Longrightarrow> length hp = length h
               \<Longrightarrow> (\<forall>a<length h. a \<noteq> r \<longrightarrow> hp ! a = h ! a) \<Longrightarrow> g hp k = G k"
  shows "fold (\<lambda>k hp. set_elem hp r k (g hp k)) [0..<m] h = h[r := map G [0..<m]]"
  using fold_fill_upto [OF assms order_refl] assms(2) by simp

lemma matrixFunction_h_value:
  assumes "data_x data < length h" "data_y data < length h" "ev < length h"
  shows "matrixFunction_h h data ev
    = (h @ [hd (matrixFunction (values_of h data) (h ! ev))],
       matrixFunction (values_of h data) (h ! ev))"
proof -
  let ?m = "length (h ! data_x data)"
  let ?h1 = "h @ [replicate ?m NaN]"
  have "fold (\<lambda>point hp. set_elem hp (length h) point
                 (nth_num (hp ! data_y data) point - nth_num (hp ! ev) point)) [0..<?m] ?h1
        = ?h1[length h := map (\<lambda>point. nth_num (h ! data_y data) point - nth_num (h ! ev) point)
                            [0..<?m]]"
    by (rule fold_fill) (use assms in \<open>auto simp: nth_append\<close>)
  then show ?thesis
    using assms
    by (simp add: matrixFunction_h_def matrixFunction_def new_array_def Let_def values_of_def
        nth_append)
qed

text \<open>One round of the outer loop of \<open>gradientFunction\<close> allocates the row and the copy
  of the parameters and changes nothing else.\<close>

lemma gradientFunction_h_body:
  assumes a: "data_x data < length h" "ev < length h" "params < length h"
    and u: "unchanged h hj" and p: "p < length (h ! params)"
    and m: "m = length (h ! data_x data)"
  shows "(\<lambda>param (h0, ans).
                let (h1, row) = new_array h0 (replicate m NaN);
                    (h2, auxParams) = new_array h1 (h1 ! params);
                    h3 = set_elem h2 auxParams param
                           (nth_num (h2 ! auxParams) param + g);
                    h4 = fold (\<lambda>point hp.
                           set_elem hp row point
                             (nth_num (hp ! ev) point
                                - f (hp ! auxParams) (hp ! data_x data ! point)))
                         [0..<m] h3
                in (h4, ans @ [row])) p (hj, ans)
     = (hj @ [map (\<lambda>point. nth_num (h ! ev) point
                     - f ((h ! params)[p := (h ! params) ! p + g]) (h ! data_x data ! point))
                [0..<m],
              (h ! params)[p := (h ! params) ! p + g]],
        ans @ [length hj])"
proof -
  have le: "length h \<le> length hj" and same: "\<And>a. a < length h \<Longrightarrow> hj ! a = h ! a"
    using u by (auto simp: unchanged_def)
  let ?aux = "(h ! params)[p := (h ! params) ! p + g]"
  let ?h2 = "hj @ [replicate m NaN, h ! params]"
  let ?h3 = "hj @ [replicate m NaN, ?aux]"
  have h3: "set_elem ?h2 (Suc (length hj)) p (nth_num (h ! params) p + g) = ?h3"
    using p by (simp add: set_elem_def nth_append list_update_append nth_num_def)
  have "fold (\<lambda>point hp. set_elem hp (length hj) point
                 (nth_num (hp ! ev) point - f (hp ! Suc (length hj)) (hp ! data_x data ! point)))
               [0..<m] ?h3
        = ?h3[length hj := map (\<lambda>point. nth_num (h ! ev) point
                                   - f ?aux (h ! data_x data ! point)) [0..<m]]"
    by (rule fold_fill) (use a le same in \<open>auto simp: nth_append\<close>)
  then have fill: "fold (\<lambda>point hp. set_elem hp (length hj) point
                 (nth_num (hp ! ev) point - f (hp ! Suc (length hj)) (hp ! data_x data ! point)))
               [0..<m] ?h3
        = hj @ [map (\<lambda>point. nth_num (h ! ev) point
                                   - f ?aux (h ! data_x data ! point)) [0..<m], ?aux]"
    by (simp add: list_update_append)
  show ?thesis
    using a le same
    by (simp add: new_array_def Let_def nth_append h3 fill)
qed

lemma gradientFunction_h_value:
  assumes a: "data_x data < length h" "ev < length h" "params < length h"
  shows "snd (gradientFunction_h h data ev params g f)
    = gradientFunction (values_of h data) (h ! ev) (h ! params) g f"
proof -
  define m where "m = length (h ! data_x data)"
  define row where "row p = map (\<lambda>point. nth_num (h ! ev) point
                     - f ((h ! params)[p := (h ! params) ! p + g]) (h ! data_x data ! point))
                [0..<m]" for p
  define body where "body = (\<lambda>param (h0, ans).
                let (h1, row) = new_array h0 (replicate m NaN);
                    (h2, auxParams) = new_array h1 (h1 ! params);
                    h3 = set_elem h2 auxParams param
                           (nth_num (h2 ! auxParams) param + g);
                    h4 = fold (\<lambda>point hp.
                           set_elem hp row point
                             (nth_num (hp ! ev) point
                                - f (hp ! auxParams) (hp ! data_x data ! point)))
                         [0..<m] h3
                in (h4, ans @ [row]))"
  have step: "body p (hj, ans)
      = (hj @ [row p, (h ! params)[p := (h ! params) ! p + g]], ans @ [length hj])"
    if "unchanged h hj" "p < length (h ! params)" for p hj ans
    unfolding body_def row_def
    by (rule gradientFunction_h_body [OF a that m_def])
  have loop: "unchanged h (fst (fold body ps st))
      \<and> (\<forall>r\<in>set (snd (fold body ps st)). r < length (fst (fold body ps st)))
      \<and> map ((!) (fst (fold body ps st))) (snd (fold body ps st))
          = map ((!) (fst st)) (snd st) @ map row ps"
    if "unchanged h (fst st)" "\<forall>r\<in>set (snd st). r < length (fst st)"
      "\<forall>p\<in>set ps. p < length (h ! params)" for ps st
    using that
  proof (induction ps arbitrary: st)
    case Nil
    then show ?case by simp
  next
    case (Cons p ps)
    obtain hj ans where st: "st = (hj, ans)" by (cases st)
    let ?st = "(hj @ [row p, (h ! params)[p := (h ! params) ! p + g]], ans @ [length hj])"
    have b: "body p st = ?st"
      using Cons.prems by (simp add: st step)
    have u: "unchanged h (fst ?st)"
      using Cons.prems(1) by (auto simp: st unchanged_def nth_append)
    have r: "\<forall>r\<in>set (snd ?st). r < length (fst ?st)"
      using Cons.prems(2) by (auto simp: st)
    have "map ((!) (fst ?st)) (snd ?st) = map ((!) (fst st)) (snd st) @ [row p]"
      using Cons.prems(2) by (auto simp: st nth_append)
    then show ?case
      using Cons.IH [OF u r] Cons.prems(3) by (simp add: b)
  qed
  have g: "gradientFunction_h h data ev params g f
      = (fst (fold body [0..<length (h ! params)] (h, [])),
         map ((!) (fst (fold body [0..<length (h ! params)] (h, []))))
           (snd (fold body [0..<length (h ! params)] (h, []))))"
    by (simp only: gradientFunction_h_def body_def m_def Let_def split_beta)
  have "map ((!) (fst (fold body [0..<length (h ! params)] (h, []))))
          (snd (fold body [0..<length (h ! params)] (h, [])))
        = map row [0..<length (h ! params)]"
    using loop [of "(h, [])" "[0..<length (h ! params)]"] by simp
  then show ?thesis
    unfolding g by (simp add: gradientFunction_def Let_def values_of_def row_def m_def)
qed

lemma values_of_unchanged:
  "unchanged h h' \<Longrightarrow> data_x data < length h \<Longrightarrow> data_y data < length h
     \<Longrightarrow> values_of h' data = values_of h data"
  by (simp add: values_of_def unchanged_def)

text \<open>The vector returned by a step in the store is the vector of the functional model.\<close>

lemma step_h_value:
  assumes a: "data_x data < length h" "data_y data < length h" "params < length h"
  shows "snd (step_h math_inv h data params d g f)
           < length (fst (step_h math_inv h data params d g f))
    \<and> fst (step_h math_inv h data params d g f) ! snd (step_h math_inv h data params d g f)
        = step math_inv (values_of h data) (h ! params) d g f"
proof -
  define l where "l = length (h ! data_x data)"
  define evaluated where "evaluated = map (\<lambda>i. f (h ! params) (h ! data_x data ! i)) [0..<l]"
  let ?h1 = "h @ [replicate l NaN]"
  let ?h2 = "h @ [evaluated]"
  have "fold (\<lambda>i hp. set_elem hp (length h) i (f (hp ! params) (hp ! data_x data ! i)))
          [0..<l] ?h1 = ?h1[length h := evaluated]"
    unfolding evaluated_def
    by (rule fold_fill) (use a in \<open>auto simp: nth_append\<close>)
  then have h2: "fold (\<lambda>i hp. set_elem hp (length h) i (f (hp ! params) (hp ! data_x data ! i)))
          [0..<l] ?h1 = ?h2"
    by simp
  have u2: "unchanged h ?h2" by (auto simp: unchanged_def nth_append)
  define h3 where "h3 = fst (gradientFunction_h ?h2 data (length h) params g f)"
  define J where "J = gradientFunction (values_of h data) evaluated (h ! params) g f"
  have J: "snd (gradientFunction_h ?h2 data (length h) params g f) = J"
    using gradientFunction_h_value [of data ?h2 "length h" params g f] a
    by (simp add: J_def values_of_def nth_append)
  have u3: "unchanged ?h2 h3"
    unfolding h3_def by (rule gradientFunction_h_frame) simp
  then have h3: "h3 ! length h = evaluated" "h3 ! params = h ! params"
    "values_of h3 data = values_of h data" "length h < length h3"
    using a by (auto simp: unchanged_def values_of_def nth_append)
  have lt: "data_x data < length h3" "data_y data < length h3"
    using a h3(4) by simp_all
  have M: "matrixFunction_h h3 data (length h)
      = (h3 @ [hd (matrixFunction (values_of h data) evaluated)],
         matrixFunction (values_of h data) evaluated)"
    using matrixFunction_h_value [OF lt h3(4)] by (simp add: h3)
  have p4: "(h3 @ [x]) ! params = h ! params" for x
    using a h3 by (simp add: nth_append)
  have s: "step_h math_inv h data params d g f
      = new_array (h3 @ [hd (matrixFunction (values_of h data) evaluated)])
          (step math_inv (values_of h data) (h ! params) d g f)"
    unfolding step_h_def step_def l_def [symmetric] Let_def new_array_def [of h] split_conv h2
    unfolding split_beta J h3_def [symmetric] M
    by (simp add: p4 J_def evaluated_def l_def values_of_def)
  show ?thesis
    unfolding s by (simp add: new_array_def nth_append)
qed

lemma step_h_cases:
  assumes "data_x data < length h" "data_y data < length h" "params < length h"
  obtains h1 a where "step_h math_inv h data params d g f = (h1, a)"
    and "a < length h1" and "h1 ! a = step math_inv (values_of h data) (h ! params) d g f"
    and "unchanged h h1"
proof -
  obtain h1 a where s: "step_h math_inv h data params d g f = (h1, a)"
    by (cases "step_h math_inv h data params d g f")
  show ?thesis
  proof (rule that [OF s])
    show "a < length h1" "h1 ! a = step math_inv (values_of h data) (h ! params) d g f"
      using step_h_value [OF assms, of math_inv d g f] by (simp_all add: s)
    show "unchanged h h1"
      using step_h_frame [of h h math_inv data params d g f] by (simp add: s)
  qed
qed

text \<open>The loops in the store follow the loops of the functional model.\<close>

lemma bracketing_h_simulation:
  assumes "bracketing_h math_inv data f options e hs = Some hs'"
  shows "data_x data < length (fst hs) \<and> data_y data < length (fst hs)
         \<and> par (snd hs) < length (fst hs) \<longrightarrow>
     bracketing math_inv (values_of (fst hs) data) f (options_values h0 options) e
         (bracket_values (fst hs) (snd hs)) = Some (bracket_values (fst hs') (snd hs'))
     \<and> par (snd hs') < length (fst hs') \<and> unchanged (fst hs) (fst hs')"
proof (rule bracketing_h.raw_induct
    [where P = "\<lambda>mi d g opts e hs hs'.
       data_x d < length (fst hs) \<and> data_y d < length (fst hs)
         \<and> par (snd hs) < length (fst hs) \<longrightarrow>
       bracketing mi (values_of (fst hs) d) g (options_values h0 opts) e
         (bracket_values (fst hs) (snd hs)) = Some (bracket_values (fst hs') (snd hs'))
       \<and> par (snd hs') < length (fst hs') \<and> unchanged (fst hs) (fst hs')", OF _ assms])
  fix bracketing' :: "(matrix \<Rightarrow> matrix) \<Rightarrow> address dataset \<Rightarrow> model \<Rightarrow> address config
      \<Rightarrow> jsnum \<Rightarrow> store \<times> address bracket_state \<Rightarrow> (store \<times> address bracket_state) option"
    and mi :: "matrix \<Rightarrow> matrix" and d :: "address dataset" and g :: model
    and opts :: "address config" and e :: jsnum
    and hs hs' :: "store \<times> address bracket_state"
  assume IH: "\<And>mi d g opts e hs hs'. bracketing' mi d g opts e hs = Some hs' \<Longrightarrow>
       data_x d < length (fst hs) \<and> data_y d < length (fst hs)
         \<and> par (snd hs) < length (fst hs) \<longrightarrow>
       bracketing mi (values_of (fst hs) d) g (options_values h0 opts) e
         (bracket_values (fst hs) (snd hs)) = Some (bracket_values (fst hs') (snd hs'))
       \<and> par (snd hs') < length (fst hs') \<and> unchanged (fst hs) (fst hs')"
  assume eq: "(let (h, s) = hs;
          (h1, stepD) = step_h mi h d (par s) (damp s) (gradientDifference opts) g;
          errD = error_h h1 d stepD g;
          (h2, stepV) = step_h mi h1 d (par s) (damp s / vfactor opts)
                          (gradientDifference opts) g;
          errV = error_h h2 d stepV g
      in case (if e > errD \<or> e > errV
               then (if errD > errV
                     then Some (s\<lparr>damp := damp s / vfactor opts, par := stepV\<rparr>)
                     else None)
               else Some (s\<lparr>damp := damp s * vfactor opts\<rparr>)) of
           None \<Rightarrow> Some (h2, s)
         | Some s1 \<Rightarrow>
             (let s2 = s1\<lparr>count := count s1 + 1\<rparr>
              in if e < errD \<or> e < errV \<or> Fin (real (count s2)) < maxIterations opts
                 then bracketing' mi d g opts e (h2, s2)
                 else Some (h2, s2))) = Some hs'"
  obtain h s where hs: "hs = (h, s)" by (cases hs)
  show "data_x d < length (fst hs) \<and> data_y d < length (fst hs)
         \<and> par (snd hs) < length (fst hs) \<longrightarrow>
       bracketing mi (values_of (fst hs) d) g (options_values h0 opts) e
         (bracket_values (fst hs) (snd hs)) = Some (bracket_values (fst hs') (snd hs'))
       \<and> par (snd hs') < length (fst hs') \<and> unchanged (fst hs) (fst hs')"
  proof
    assume "data_x d < length (fst hs) \<and> data_y d < length (fst hs)
         \<and> par (snd hs) < length (fst hs)"
    then have v: "data_x d < length h" "data_y d < length h" "par s < length h"
      by (simp_all add: hs)
    obtain h1 stepD where 1:
      "step_h mi h d (par s) (damp s) (gradientDifference opts) g = (h1, stepD)"
      "stepD < length h1"
      "h1 ! stepD = step mi (values_of h d) (h ! par s) (damp s) (gradientDifference opts) g"
      "unchanged h h1"
      by (rule step_h_cases [OF v])
    have v1: "data_x d < length h1" "data_y d < length h1" "par s < length h1"
      and same1: "values_of h1 d = values_of h d" "h1 ! par s = h ! par s"
      using v 1(4) by (auto simp: unchanged_def values_of_def)
    obtain h2 stepV where 2:
      "step_h mi h1 d (par s) (damp s / vfactor opts) (gradientDifference opts) g = (h2, stepV)"
      "stepV < length h2"
      "h2 ! stepV = step mi (values_of h1 d) (h1 ! par s) (damp s / vfactor opts)
                      (gradientDifference opts) g"
      "unchanged h1 h2"
      by (rule step_h_cases [OF v1])
    have v2: "data_x d < length h2" "data_y d < length h2" "par s < length h2"
      and same2: "values_of h2 d = values_of h d" "h2 ! par s = h ! par s"
      using v1 same1 2(4) by (auto simp: unchanged_def values_of_def)
    have u: "unchanged h h2" using 1(4) 2(4) by (rule unchanged_trans)
    let ?stepD = "step mi (values_of h d) (h ! par s) (damp s) (gradientDifference opts) g"
    let ?stepV = "step mi (values_of h d) (h ! par s) (damp s / vfactor opts)
                    (gradientDifference opts) g"
    let ?errD = "error (values_of h d) ?stepD g"
    let ?errV = "error (values_of h d) ?stepV g"
    have errD: "error_h h1 d stepD g = ?errD"
      by (simp add: error_h_error 1(3) same1)
    have errV: "error_h h2 d stepV g = ?errV"
      by (simp add: error_h_error 2(3) same1 same2)
    let ?acc = "s\<lparr>damp := damp s / vfactor opts, par := stepV, count := count s + 1\<rparr>"
    let ?inc = "s\<lparr>damp := damp s * vfactor opts, count := count s + 1\<rparr>"
    have go: "bracketing mi (values_of h d) g (options_values h0 opts) e (bracket_values h s)
          = Some (bracket_values (fst hs') (snd hs'))
        \<and> par (snd hs') < length (fst hs') \<and> unchanged h (fst hs')"
      if "bracketing' mi d g opts e (h2, s2) = Some hs'" "par s2 < length h2"
        and "bracketing mi (values_of h d) g (options_values h0 opts) e (bracket_values h s)
          = bracketing mi (values_of h d) g (options_values h0 opts) e (bracket_values h2 s2)"
      for s2
      using IH [OF that(1)] that(2,3) v2 u same2 by (auto intro: unchanged_trans)
    consider (exit) "?errD < e \<or> ?errV < e" "\<not> ?errV < ?errD"
      | (acc_c) "?errD < e \<or> ?errV < e" "?errV < ?errD"
          "e < ?errD \<or> e < ?errV \<or> Fin (real (count ?acc)) < maxIterations opts"
      | (acc_s) "?errD < e \<or> ?errV < e" "?errV < ?errD"
          "\<not> (e < ?errD \<or> e < ?errV \<or> Fin (real (count ?acc)) < maxIterations opts)"
      | (inc_c) "\<not> (?errD < e \<or> ?errV < e)"
          "e < ?errD \<or> e < ?errV \<or> Fin (real (count ?inc)) < maxIterations opts"
      | (inc_s) "\<not> (?errD < e \<or> ?errV < e)"
          "\<not> (e < ?errD \<or> e < ?errV \<or> Fin (real (count ?inc)) < maxIterations opts)"
      by blast
    then have "bracketing mi (values_of h d) g (options_values h0 opts) e (bracket_values h s)
          = Some (bracket_values (fst hs') (snd hs'))
        \<and> par (snd hs') < length (fst hs') \<and> unchanged h (fst hs')"
    proof cases
      case exit
      then have "hs' = (h2, s)" using eq by (simp add: hs 1 2 errD errV Let_def)
      moreover have "bracketing mi (values_of h d) g (options_values h0 opts) e
          (bracket_values h s) = Some (bracket_values h s)"
        using exit
        by (subst bracketing.simps) (simp add: Let_def bracket_values_def options_values_def)
      ultimately show ?thesis
        using v2 u same2 by (simp add: bracket_values_def)
    next
      case acc_c
      then have r: "bracketing' mi d g opts e (h2, ?acc) = Some hs'"
        using eq by (simp add: hs 1 2 errD errV Let_def)
      show ?thesis
      proof (rule go [OF r])
        show "par ?acc < length h2" using 2(2) by simp
        show "bracketing mi (values_of h d) g (options_values h0 opts) e (bracket_values h s)
          = bracketing mi (values_of h d) g (options_values h0 opts) e (bracket_values h2 ?acc)"
          using acc_c
          by (subst bracketing.simps)
             (simp add: Let_def bracket_values_def options_values_def 2(3) same1)
      qed
    next
      case acc_s
      then have "hs' = (h2, ?acc)" using eq by (simp add: hs 1 2 errD errV Let_def)
      moreover have "bracketing mi (values_of h d) g (options_values h0 opts) e
          (bracket_values h s) = Some (bracket_values h2 ?acc)"
        using acc_s
        by (subst bracketing.simps)
           (simp add: Let_def bracket_values_def options_values_def 2(3) same1)
      ultimately show ?thesis
        using 2(2) u by simp
    next
      case inc_c
      then have r: "bracketing' mi d g opts e (h2, ?inc) = Some hs'"
        using eq by (simp add: hs 1 2 errD errV Let_def)
      show ?thesis
      proof (rule go [OF r])
        show "par ?inc < length h2" using v2 by simp
        show "bracketing mi (values_of h d) g (options_values h0 opts) e (bracket_values h s)
          = bracketing mi (values_of h d) g (options_values h0 opts) e (bracket_values h2 ?inc)"
          using inc_c
          by (subst bracketing.simps)
             (simp add: Let_def bracket_values_def options_values_def same2)
      qed
    next
      case inc_s
      then have "hs' = (h2, ?inc)" using eq by (simp add: hs 1 2 errD errV Let_def)
      moreover have "bracketing mi (values_of h d) g (options_values h0 opts) e
          (bracket_values h s) = Some (bracket_values h2 ?inc)"
        using inc_s
        by (subst bracketing.simps)
           (simp add: Let_def bracket_values_def options_values_def same2)
      ultimately show ?thesis
        using v2 u by simp
    qed
    then show "bracketing mi (values_of (fst hs) d) g (options_values h0 opts) e
         (bracket_values (fst hs) (snd hs)) = Some (bracket_values (fst hs') (snd hs'))
       \<and> par (snd hs') < length (fst hs') \<and> unchanged (fst hs) (fst hs')"
      by (simp add: hs)
  qed
qed

lemma refine_values_unchanged:
  assumes "unchanged h h'" "valid_refine h s"
  shows "refine_values h' s = refine_values h s" "valid_refine h' s"
  using assms
  by (auto simp: refine_values_def valid_refine_def unchanged_def list_all_iff)

lemma refine_h_simulation:
  assumes "refine_h math_inv data f options dmp hs = Some hs'"
  shows "data_x data < length (fst hs) \<and> data_y data < length (fst hs)
         \<and> valid_refine (fst hs) (snd hs) \<longrightarrow>
     refine math_inv (values_of (fst hs) data) f (options_values h0 options) dmp
         (refine_values (fst hs) (snd hs)) = Some (refine_values (fst hs') (snd hs'))
     \<and> valid_refine (fst hs') (snd hs') \<and> unchanged (fst hs) (fst hs')"
proof (rule refine_h.raw_induct
    [where P = "\<lambda>mi d g opts dm hs hs'.
       data_x d < length (fst hs) \<and> data_y d < length (fst hs)
         \<and> valid_refine (fst hs) (snd hs) \<longrightarrow>
       refine mi (values_of (fst hs) d) g (options_values h0 opts) dm
         (refine_values (fst hs) (snd hs)) = Some (refine_values (fst hs') (snd hs'))
       \<and> valid_refine (fst hs') (snd hs') \<and> unchanged (fst hs) (fst hs')", OF _ assms])
  fix refine' :: "(matrix \<Rightarrow> matrix) \<Rightarrow> address dataset \<Rightarrow> model \<Rightarrow> address config
      \<Rightarrow> jsnum \<Rightarrow> store \<times> address refine_state \<Rightarrow> (store \<times> address refine_state) option"
    and mi :: "matrix \<Rightarrow> matrix" and d :: "address dataset" and g :: model
    and opts :: "address config" and dm :: jsnum
    and hs hs' :: "store \<times> address refine_state"
  assume IH: "\<And>mi d g opts dm hs hs'. refine' mi d g opts dm hs = Some hs' \<Longrightarrow>
       data_x d < length (fst hs) \<and> data_y d < length (fst hs)
         \<and> valid_refine (fst hs) (snd hs) \<longrightarrow>
       refine mi (values_of (fst hs) d) g (options_values h0 opts) dm
         (refine_values (fst hs) (snd hs)) = Some (refine_values (fst hs') (snd hs'))
       \<and> valid_refine (fst hs') (snd hs') \<and> unchanged (fst hs) (fst hs')"
  assume eq: "(let (h, s) = hs
      in if Fin (real (iter s)) < maxIterations opts \<and> \<not> converged s
         then (let (h1, parameters1) =
                     step_h mi h d (parameters s) dm (gradientDifference opts) g;
                   err1 = error_h h1 d parameters1 g;
                   s1 = s\<lparr>parameters := parameters1, err := err1,
                          calls := calls s @ [(parameters s, dm, err1)]\<rparr>
               in if isNaN err1 then Some (h1, s1)
                  else refine' mi d g opts dm
                         (h1, s1\<lparr>converged := (err1 \<le> errorTolerance opts),
                                 lastParams := parameters1,
                                 iter := iter s + 1\<rparr>))
         else Some hs) = Some hs'"
  obtain h s where hs: "hs = (h, s)" by (cases hs)
  show "data_x d < length (fst hs) \<and> data_y d < length (fst hs)
         \<and> valid_refine (fst hs) (snd hs) \<longrightarrow>
       refine mi (values_of (fst hs) d) g (options_values h0 opts) dm
         (refine_values (fst hs) (snd hs)) = Some (refine_values (fst hs') (snd hs'))
       \<and> valid_refine (fst hs') (snd hs') \<and> unchanged (fst hs) (fst hs')"
  proof
    assume "data_x d < length (fst hs) \<and> data_y d < length (fst hs)
         \<and> valid_refine (fst hs) (snd hs)"
    then have v: "data_x d < length h" "data_y d < length h" "parameters s < length h"
      and vr: "valid_refine h s"
      by (simp_all add: hs valid_refine_def)
    obtain h1 p1 where 1:
      "step_h mi h d (parameters s) dm (gradientDifference opts) g = (h1, p1)"
      "p1 < length h1"
      "h1 ! p1 = step mi (values_of h d) (h ! parameters s) dm (gradientDifference opts) g"
      "unchanged h h1"
      by (rule step_h_cases [OF v])
    have v1: "data_x d < length h1" "data_y d < length h1"
      and same1: "values_of h1 d = values_of h d"
      using v 1(4) by (auto simp: unchanged_def values_of_def)
    let ?p1 = "step mi (values_of h d) (h ! parameters s) dm (gradientDifference opts) g"
    let ?e1 = "error (values_of h d) ?p1 g"
    have e1: "error_h h1 d p1 g = ?e1"
      by (simp add: error_h_error 1(3) same1)
    let ?s1 = "s\<lparr>parameters := p1, err := ?e1, calls := calls s @ [(parameters s, dm, ?e1)]\<rparr>"
    let ?s2 = "?s1\<lparr>converged := (?e1 \<le> errorTolerance opts), lastParams := p1,
                  iter := iter s + 1\<rparr>"
    have vs: "valid_refine h1 ?s1" "valid_refine h1 ?s2"
      using refine_values_unchanged(2) [OF 1(4) vr] 1(2)
      by (auto simp: valid_refine_def)
    have r0: "refine_values h1 s = refine_values h s"
      by (rule refine_values_unchanged(1) [OF 1(4) vr])
    have "h1 ! parameters s = h ! parameters s"
      using 1(4) v(3) by (simp add: unchanged_def)
    then have r1: "refine_values h1 ?s1
        = (refine_values h s)\<lparr>parameters := ?p1, err := ?e1,
             calls := calls (refine_values h s) @ [(parameters (refine_values h s), dm, ?e1)]\<rparr>"
      and r2: "refine_values h1 ?s2
        = (refine_values h s)\<lparr>parameters := ?p1, err := ?e1,
             calls := calls (refine_values h s) @ [(parameters (refine_values h s), dm, ?e1)],
             converged := (?e1 \<le> errorTolerance (options_values h0 opts)),
             lastParams := ?p1, iter := iter (refine_values h s) + 1\<rparr>"
      using r0 by (simp_all add: refine_values_def 1(3) options_values_def)
    consider (leave) "\<not> (Fin (real (iter s)) < maxIterations opts \<and> \<not> converged s)"
      | (break) "Fin (real (iter s)) < maxIterations opts" "\<not> converged s" "isNaN ?e1"
      | (again) "Fin (real (iter s)) < maxIterations opts" "\<not> converged s" "\<not> isNaN ?e1"
      by blast
    then have "refine mi (values_of h d) g (options_values h0 opts) dm (refine_values h s)
          = Some (refine_values (fst hs') (snd hs'))
        \<and> valid_refine (fst hs') (snd hs') \<and> unchanged h (fst hs')"
    proof cases
      case leave
      then have "hs' = (h, s)" using eq by (auto simp: hs)
      moreover have "refine mi (values_of h d) g (options_values h0 opts) dm
          (refine_values h s) = Some (refine_values h s)"
        using leave
        by (subst refine.simps) (auto simp: refine_values_def options_values_def)
      ultimately show ?thesis using vr by simp
    next
      case break
      then have "hs' = (h1, ?s1)" using eq by (simp add: hs 1 e1 Let_def)
      moreover have "refine mi (values_of h d) g (options_values h0 opts) dm
          (refine_values h s) = Some (refine_values h1 ?s1)"
        unfolding r1 using break
        by (subst refine.simps) (simp add: Let_def refine_values_def options_values_def)
      ultimately show ?thesis using vs(1) 1(4) by simp
    next
      case again
      then have r: "refine' mi d g opts dm (h1, ?s2) = Some hs'"
        using eq by (simp add: hs 1 e1 Let_def)
      have "refine mi (values_of h d) g (options_values h0 opts) dm (refine_values h s)
          = refine mi (values_of h d) g (options_values h0 opts) dm (refine_values h1 ?s2)"
        unfolding r2 using again
        by (subst refine.simps) (simp add: Let_def refine_values_def options_values_def)
      then show ?thesis
        using IH [OF r] v1 vs(2) same1 1(4) by (auto intro: unchanged_trans)
    qed
    then show "refine mi (values_of (fst hs) d) g (options_values h0 opts) dm
         (refine_values (fst hs) (snd hs)) = Some (refine_values (fst hs') (snd hs'))
       \<and> valid_refine (fst hs') (snd hs') \<and> unchanged (fst hs) (fst hs')"
      by (simp add: hs)
  qed
qed

lemma options_or_default_h_values:
  assumes "\<forall>given. opts = Some given \<longrightarrow> initialValues given < length h"
    and "options_or_default_h h arity opts = Some (h0, options)"
  shows "numeric_options
           (options_or_default arity (map_option (\<lambda>given. supplied (options_values h given)) opts))
         = Some (options_values h0 options)"
    and "initialValues options < length h0" and "unchanged h h0"
proof -
  show "unchanged h h0"
    using assms(2) by (rule options_or_default_h_frame)
  show "initialValues options < length h0"
    using assms
    by (cases opts)
      (auto simp: options_or_default_h_def new_array_def Let_def split: option.splits)
  show "numeric_options
           (options_or_default arity (map_option (\<lambda>given. supplied (options_values h given)) opts))
         = Some (options_values h0 options)"
  proof (cases opts)
    case None
    then show ?thesis
      using assms(2)
      by (auto simp: options_or_default_h_def options_or_default_def default_options_def
          numeric_options_def options_values_def new_array_def Let_def nth_append
          split: option.splits)
  next
    case (Some given)
    then show ?thesis
      using assms(2)
      by (simp add: options_or_default_h_def options_or_default_def numeric_options_supplied)
  qed
qed

text \<open>
  The two models agree: when \<open>lma\<close> returns in a store in which the addresses of its
  arguments are allocated, the functional model returns, for the arrays at these addresses,
  the same \<open>iterations\<close> and \<open>parameterError\<close>, and the vector that the final store
  holds at the returned address.
\<close>

theorem lma_h_refines_lma:
  assumes run: "lma_h math_inv arity h data f opts = Some (Inr (h', r))"
    and d: "data_x data < length h" "data_y data < length h"
    and o: "\<forall>given. opts = Some given \<longrightarrow> initialValues given < length h"
  shows "lma math_inv arity (values_of h data) f
           (map_option (\<lambda>given. supplied (options_values h given)) opts)
           = Some (Inr (result_values h' r))"
proof -
  from run obtain h0 options where oh: "options_or_default_h h arity opts = Some (h0, options)"
    by (auto simp: lma_h_def split: option.splits)
  define options' where "options' = options_values h0 options"
  note ov = options_or_default_h_values [OF o oh]
  have d0: "data_x data < length h0" "data_y data < length h0"
    and same0: "values_of h0 data = values_of h data"
    using d ov(3) by (auto simp: unchanged_def values_of_def)
  have iv: "initialValues options' = h0 ! initialValues options"
    and num: "damping options' = damping options" "errorTolerance options' = errorTolerance options"
    by (simp_all add: options'_def options_values_def)
  define e where "e = error (values_of h data) (initialValues options') f"
  have e: "error_h h0 data (initialValues options) f = e"
    by (simp add: e_def error_h_error same0 iv)
  from run obtain h1 b s where
    b: "bracketing_h math_inv data f options e
          (h0, \<lparr>damp = damping options, count = 0, par = initialValues options\<rparr>)
        = Some (h1, b)"
    and rf: "refine_h math_inv data f options (damp b)
          (h1, \<lparr>parameters = initialValues options, err = e,
                 converged = (e \<le> errorTolerance options),
                 iter = 0, lastParams = initialValues options, calls = []\<rparr>) = Some (h', s)"
    and r: "r = \<lparr>iterations = iter s,
                 parameterError =
                   (if isNaN (err s) then error_h h' data (lastParams s) f else err s),
                 parameterValues =
                   (if isNaN (err s) then lastParams s else parameters s)\<rparr>"
    by (auto simp: lma_h_def oh e Let_def split: option.splits)
  have b': "bracketing math_inv (values_of h data) f options' e
        \<lparr>damp = damping options', count = 0, par = initialValues options'\<rparr>
        = Some (bracket_values h1 b)"
    and u1: "unchanged h0 h1"
    using bracketing_h_simulation [OF b, of h0] d0 ov(2)
    by (simp_all add: same0 options'_def [symmetric] bracket_values_def iv num)
  have d1: "data_x data < length h1" "data_y data < length h1"
    and same1: "values_of h1 data = values_of h data"
    and iv1: "h1 ! initialValues options = h0 ! initialValues options"
      "initialValues options < length h1"
    using d0 same0 u1 ov(2) by (auto simp: unchanged_def values_of_def)
  have rf': "refine math_inv (values_of h data) f options' (damp (bracket_values h1 b))
        \<lparr>parameters = initialValues options', err = e,
         converged = (e \<le> errorTolerance options'), iter = 0,
         lastParams = initialValues options', calls = []\<rparr>
        = Some (refine_values h' s)"
    and vs: "valid_refine h' s" and u2: "unchanged h1 h'"
    using refine_h_simulation [OF rf, of h0] d1 iv1
    by (simp_all add: same1 options'_def [symmetric] refine_values_def valid_refine_def iv num
        bracket_values_def)
  have same2: "values_of h' data = values_of h data"
    using d1 same1 u2 by (auto simp: unchanged_def values_of_def)
  have "lma_result (values_of h data) f (refine_values h' s) = result_values h' r"
    by (simp add: lma_result_def result_values_def r refine_values_def error_h_error same2)
  then show ?thesis
    using b' rf'
    by (simp add: lma_def lma_run_def Let_def ov(1) options'_def [symmetric] e_def)
qed

text \<open>They agree on the exception too: the store model raises it only for a call that
  passes no options object, and then the functional model raises it.\<close>

lemma lma_h_exception:
  assumes "lma_h math_inv arity h data f opts = Some (Inl e)"
  shows "opts = None \<and> lma math_inv arity data' f None = Some (Inl e)"
proof -
  have n: "options_or_default_h h arity opts = None"
    using assms by (auto simp: lma_h_def Let_def split: option.splits prod.splits)
  then have o: "opts = None"
    by (cases opts) (simp_all add: options_or_default_h_def)
  have "0 < arity"
  proof (rule ccontr)
    assume "\<not> 0 < arity"
    then show False
      using n o
      by (simp add: options_or_default_h_def Array_of_length_def Array_map_def new_array_def
          Let_def)
  qed
  then show ?thesis
    using o lma_without_options [of arity math_inv data' f] by (cases e) simp
qed
text \<open>A step in the store for one parameter and one sample: five arrays are allocated
  (\<open>evaluatedData\<close>, the row of \<open>ans\<close>, \<open>auxParams\<close>, the array of \<open>matrixFunction\<close>
  and the returned vector), and the returned vector is the one of the functional model.\<close>

lemma step_h_one_sample:
  assumes "data_x data < length h" "data_y data < length h" "params < length h"
    and "h ! data_x data = [x0]" "h ! data_y data = [y0]" "h ! params = [p]"
  shows "step_h inv_1x1 h data params d g f =
     (h @ [[f [p] x0], [f [p] x0 - f [p + g] x0], [p + g], [y0 - f [p] x0],
           step inv_1x1 \<lparr>data_x = [x0], data_y = [y0]\<rparr> [p] d g f],
      length h + 4)"
  using assms
  apply (simp add: step_h_def gradientFunction_h_def matrixFunction_h_def new_array_def Let_def
      nth_append)
  apply (simp add: set_elem_def nth_append list_update_append nth_num_def)
  apply (simp add: step_def gradientFunction_def matrixFunction_def nth_num_def Let_def)
  done

lemma error_h_one_sample:
  assumes "h ! data_x data = [x0]" "h ! data_y data = [y0]"
  shows "error_h h data params f = Fin 0 + \<bar>y0 - f (h ! params) x0\<bar>"
  using assms by (simp add: error_h_def nth_num_def)

text \<open>The first of the three fits, in a store that holds the arrays \<open>x\<close>, \<open>y\<close> and
  \<open>initialValues\<close> at the addresses 0, 1 and 2.\<close>

lemma run_constant_in_store:
  "\<exists>h' r. lma_h inv_1x1 1 [[Fin 0], [Fin 0], [Fin 1]] \<lparr>data_x = 0, data_y = 1\<rparr> constant_model
       (Some \<lparr>damping = Fin 1, errorTolerance = Fin 0.01, gradientDifference = Fin 1,
              initialValues = 2, maxIterations = Fin 1, vfactor = Fin 2\<rparr>) = Some (Inr (h', r))
     \<and> iterations r = 1 \<and> parameterError r = Fin (1 / 3)
     \<and> h' ! parameterValues r = [Fin (1 / 3)]"
  unfolding lma_h_def options_or_default_h_def
  apply (simp add: error_h_one_sample constant_model_def nth_num_def)
  apply (subst bracketing_h.simps)
  apply (simp add: step_h_one_sample step_one_sample error_h_one_sample constant_model_def
      nth_num_def Let_def nth_append)
  apply (subst refine_h.simps)
  apply (simp add: step_h_one_sample step_one_sample error_h_one_sample constant_model_def
      nth_num_def Let_def nth_append isNaN_def)
  apply (subst refine_h.simps)
  apply (simp add: step_h_one_sample step_one_sample error_h_one_sample constant_model_def
      nth_num_def Let_def nth_append isNaN_def)
  done

text \<open>
  C10. No call changes an array that existed before it. When \<open>lma\<close> returns, every array
  of the store in which it was called (among them \<open>x\<close>, \<open>y\<close> and \<open>initialValues\<close>) is in
  the final store with the same elements; the same holds for \<open>step\<close>, \<open>gradientFunction\<close>
  (which adds \<open>gradientDifference\<close> in a copy of the parameter vector) and
  \<open>matrixFunction\<close>. \<open>error\<close> returns a number and no store: it allocates nothing and
  assigns to no array element. The objects \<open>data\<close> and \<open>options\<close> themselves are
  records that no function returns changed: the source assigns to none of their fields.
\<close>

theorem inputs_are_not_mutated:
  "(lma_h math_inv arity h data f opts = Some (Inr (h', r)) \<longrightarrow> unchanged h h')
   \<and> unchanged h (fst (step_h math_inv h data params d g f))
   \<and> unchanged h (fst (gradientFunction_h h data ev params g f))
   \<and> unchanged h (fst (matrixFunction_h h data ev))"
  using lma_h_frame [of math_inv arity h data f opts h' r]
    step_h_frame [of h h math_inv data params d g f]
    gradientFunction_h_frame [of h h data ev params g f]
    matrixFunction_h_frame [of h h data ev]
  by simp

theorem inputs_are_not_mutated_witness:
  "\<exists>h' r. lma_h inv_1x1 1 [[Fin 0], [Fin 0], [Fin 1]] \<lparr>data_x = 0, data_y = 1\<rparr> constant_model
       (Some \<lparr>damping = Fin 1, errorTolerance = Fin 0.01, gradientDifference = Fin 1,
              initialValues = 2, maxIterations = Fin 1, vfactor = Fin 2\<rparr>) = Some (Inr (h', r))
     \<and> h' ! 0 = [Fin 0] \<and> h' ! 1 = [Fin 0] \<and> h' ! 2 = [Fin 1]
     \<and> h' ! parameterValues r = [Fin (1 / 3)]"
proof -
  let ?h = "[[Fin 0], [Fin 0], [Fin 1]]"
  let ?d = "\<lparr>data_x = 0, data_y = 1\<rparr> :: address dataset"
  let ?o = "\<lparr>damping = Fin 1, errorTolerance = Fin 0.01, gradientDifference = Fin 1,
              initialValues = 2, maxIterations = Fin 1, vfactor = Fin 2\<rparr> :: address config"
  obtain h' r where run: "lma_h inv_1x1 1 ?h ?d constant_model (Some ?o) = Some (Inr (h', r))"
    and v: "h' ! parameterValues r = [Fin (1 / 3)]"
    using run_constant_in_store by blast
  have "unchanged ?h h'"
    using inputs_are_not_mutated [of inv_1x1 1 ?h ?d constant_model "Some ?o" h' r] run
    by blast
  then have "h' ! 0 = [Fin 0]" "h' ! 1 = [Fin 0]" "h' ! 2 = [Fin 1]"
    by (simp_all add: unchanged_def)
  with run v show ?thesis by blast
qed


end
